theory Spec2Isabelle
  imports Main "HOL-Library.Word"
begin

section \<open>Data model\<close>

text \<open>
  The program is a user-account backend in three layers: the service
  (\<^verbatim>\<open>internal/service/user_service.go\<close>), the repository
  (\<^verbatim>\<open>internal/repository/user_repository.go\<close>) and the table behind GORM.
  Go's \<^verbatim>\<open>time.Time\<close> is a point on the clock, here a natural number of clock ticks
  with 0 for the zero value; \<^verbatim>\<open>uint\<close> identifiers are natural numbers (the code
  does no arithmetic on them); \<^verbatim>\<open>int\<close> is the 64-bit signed integer of the usual
  targets, so the pagination arithmetic wraps around as Go's does.
\<close>

type_synonym time = nat

type_synonym go_int = "64 word"

text \<open>The requests and the public view of \<^verbatim>\<open>user_service.go\<close>.\<close>

record CreateUserRequest =
  Username :: string
  Email :: string
  Password :: string
  FirstName :: string
  LastName :: string

record UpdateUserRequest =
  FirstName :: string
  LastName :: string
  Password :: string

record UserResponse =
  ID :: nat
  Username :: string
  Email :: string
  FirstName :: string
  LastName :: string
  IsActive :: bool
  CreatedAt :: time
  UpdatedAt :: time

text \<open>
  \<^verbatim>\<open>models.User\<close>, the persisted entity. \<^verbatim>\<open>DeletedAt\<close> is \<^verbatim>\<open>gorm.DeletedAt\<close>, a
  nullable time: \<open>None\<close> for a live row.
\<close>

record User =
  ID :: nat
  Username :: string
  Email :: string
  PasswordHash :: string
  FirstName :: string
  LastName :: string
  IsActive :: bool
  CreatedAt :: time
  UpdatedAt :: time
  DeletedAt :: "time option"

text \<open>
  The error values of the two packages. Every one is a package-level sentinel made by
  \<^verbatim>\<open>errors.New\<close> and never wrapped, so \<^verbatim>\<open>errors.Is(err, X)\<close> is equality with \<open>X\<close>.
  \<open>BcryptError\<close> stands for the errors of \<^verbatim>\<open>golang.org/x/crypto/bcrypt\<close>, which the
  service passes on as they are.
\<close>

datatype error =
    ErrNotFound | ErrConflict | ErrDatabase
  | ErrInvalidCredentials | ErrUserNotFound | ErrUserAlreadyExists
  | BcryptError string

definition mapUserToResponse :: "User \<Rightarrow> UserResponse" where
  "mapUserToResponse user =
     \<lparr>UserResponse.ID = User.ID user,
      UserResponse.Username = User.Username user,
      UserResponse.Email = User.Email user,
      UserResponse.FirstName = User.FirstName user,
      UserResponse.LastName = User.LastName user,
      UserResponse.IsActive = User.IsActive user,
      UserResponse.CreatedAt = User.CreatedAt user,
      UserResponse.UpdatedAt = User.UpdatedAt user\<rparr>"


section \<open>The table behind GORM\<close>

text \<open>
  The repository talks to PostgreSQL through \<^verbatim>\<open>gorm.DB\<close>. Neither GORM nor the
  driver is code of this program; what the repository relies on is fixed by the struct
  tags of \<^verbatim>\<open>models.User\<close> and written out here as an explicit table:
  \<^item> \<^verbatim>\<open>primaryKey\<close>: the identifier comes from the table's sequence when the struct
    carries 0, and two rows never share one;
  \<^item> \<^verbatim>\<open>uniqueIndex\<close> on username and email: the insert or update that would repeat a
    value fails with the driver's unique-violation error;
  \<^item> \<^verbatim>\<open>autoCreateTime\<close>, \<^verbatim>\<open>autoUpdateTime\<close>: GORM writes the current time into
    the struct and the row;
  \<^item> \<^verbatim>\<open>default:true\<close> on \<^verbatim>\<open>IsActive\<close>: a zero value is replaced by the default
    on insert;
  \<^item> the \<^verbatim>\<open>gorm.DeletedAt\<close> field ("Support for soft delete"): \<^verbatim>\<open>Delete\<close> sets the
    marker instead of removing the row, and every query and update sees only rows whose
    marker is null.

  The columns themselves are declared by the SQL migrations, which are not among the
  sources at hand, and the text of a driver error is the driver's. Both are parameters
  of the table: \<open>col_time\<close> is what a timestamp column gives back for a Go time written
  to it (PostgreSQL keeps microseconds, Go's clock nanoseconds), \<open>unique_violation\<close>
  is the message of the error the driver returns for a violated unique index.
  \<open>faults\<close> is the environment's schedule of driver failures (a lost connection, a
  cancelled context): each statement takes the head, and \<open>Some msg\<close> makes it fail with
  that message.
\<close>

record database =
  rows :: "User list"
  last_id :: nat
  now :: time
  faults :: "string option list"
  unique_violation :: string
  col_time :: "time \<Rightarrow> time"

text \<open>
  \<^verbatim>\<open>result.Error\<close> of a GORM call: \<^verbatim>\<open>gorm.ErrRecordNotFound\<close> or an error of the
  driver, of which the repository reads only the message.
\<close>

datatype gorm_error = ErrRecordNotFound | DriverError string

fun Error_text :: "gorm_error \<Rightarrow> string" where
  "Error_text ErrRecordNotFound = ''record not found''"
| "Error_text (DriverError msg) = msg"

record gorm_result =
  Error :: "gorm_error option"
  RowsAffected :: int

definition succeeded :: "int \<Rightarrow> gorm_result" where
  "succeeded n = \<lparr>Error = None, RowsAffected = n\<rparr>"

definition failed :: "gorm_error \<Rightarrow> gorm_result" where
  "failed e = \<lparr>Error = Some e, RowsAffected = 0\<rparr>"

definition next_fault :: "database \<Rightarrow> string option \<times> database" where
  "next_fault db =
     (case faults db of
        [] \<Rightarrow> (None, db)
      | f # fs \<Rightarrow> (f, db\<lparr>faults := fs\<rparr>))"

text \<open>The zero value of \<^verbatim>\<open>models.User\<close>, as \<^verbatim>\<open>var user models.User\<close> makes it.\<close>

definition zero_User :: User where
  "zero_User =
     \<lparr>User.ID = 0, User.Username = [], User.Email = [], PasswordHash = [],
      User.FirstName = [], User.LastName = [], User.IsActive = False,
      User.CreatedAt = 0, User.UpdatedAt = 0, DeletedAt = None\<rparr>"

definition live :: "User \<Rightarrow> bool" where
  "live r = (DeletedAt r = None)"

text \<open>The row a struct becomes when it is written to the table.\<close>

definition store_row :: "database \<Rightarrow> User \<Rightarrow> User" where
  "store_row db u =
     u\<lparr>User.CreatedAt := col_time db (User.CreatedAt u),
       User.UpdatedAt := col_time db (User.UpdatedAt u),
       DeletedAt := map_option (col_time db) (DeletedAt u)\<rparr>"

text \<open>
  Would writing \<open>u\<close> beside the rows \<open>rs\<close> violate the primary key or a unique index?
  The indexes cover every row of the table, soft-deleted ones too.
\<close>

definition violates_unique :: "User list \<Rightarrow> User \<Rightarrow> bool" where
  "violates_unique rs u =
     (\<exists>r \<in> set rs. User.ID r = User.ID u \<or> User.Username r = User.Username u
        \<or> User.Email r = User.Email u)"

text \<open>
  \<^verbatim>\<open>db.Create(user)\<close>: one INSERT. GORM fills the zero timestamps and the default of
  \<^verbatim>\<open>IsActive\<close> into the struct before the statement runs and writes the generated
  identifier back after it.
\<close>

definition db_Create :: "database \<Rightarrow> User \<Rightarrow> gorm_result \<times> User \<times> database" where
  "db_Create db user =
     (case next_fault db of
        (Some msg, db1) \<Rightarrow> (failed (DriverError msg), user, db1)
      | (None, db1) \<Rightarrow>
          (let filled = user\<lparr>User.IsActive := (if User.IsActive user = False then True else User.IsActive user),
                 User.CreatedAt := (if User.CreatedAt user = 0 then now db1 else User.CreatedAt user),
                 User.UpdatedAt := (if User.UpdatedAt user = 0 then now db1 else User.UpdatedAt user)\<rparr>;
               db2 = (if User.ID user = 0 then db1\<lparr>last_id := Suc (last_id db1)\<rparr> else db1);
               inserted = (if User.ID user = 0 then filled\<lparr>User.ID := last_id db2\<rparr> else filled)
           in if violates_unique (rows db2) inserted
              then (failed (DriverError (unique_violation db2)), filled, db2)
              else (succeeded 1, inserted, db2\<lparr>rows := rows db2 @ [store_row db2 inserted]\<rparr>)))"

text \<open>
  \<^verbatim>\<open>db.First(&user, id)\<close> and \<^verbatim>\<open>db.Where(...).First(&user)\<close>: the live row that meets
  the condition and has the least primary key, or \<^verbatim>\<open>ErrRecordNotFound\<close>. The struct
  stays at its zero value when nothing is read.
\<close>

definition db_First :: "database \<Rightarrow> (User \<Rightarrow> bool) \<Rightarrow> gorm_result \<times> User \<times> database" where
  "db_First db cond =
     (case next_fault db of
        (Some msg, db1) \<Rightarrow> (failed (DriverError msg), zero_User, db1)
      | (None, db1) \<Rightarrow>
          (case find (\<lambda>r. cond r \<and> live r) (sort_key User.ID (rows db1)) of
             None \<Rightarrow> (failed ErrRecordNotFound, zero_User, db1)
           | Some r \<Rightarrow> (succeeded 1, r, db1)))"

text \<open>\<^verbatim>\<open>db.Model(&models.User{}).Count(&count)\<close>: the number of live rows.\<close>

definition db_Count :: "database \<Rightarrow> gorm_result \<times> int \<times> database" where
  "db_Count db =
     (case next_fault db of
        (Some msg, db1) \<Rightarrow> (failed (DriverError msg), 0, db1)
      | (None, db1) \<Rightarrow> (succeeded 1, int (length (filter live (rows db1))), db1))"

text \<open>
  \<^verbatim>\<open>db.Offset(offset).Limit(limit).Order("created_at DESC").Find(&users)\<close>. GORM
  writes the OFFSET clause only for a positive offset and the LIMIT clause only for a
  limit that is not negative. SQL leaves the order of rows with equal \<^verbatim>\<open>created_at\<close>
  open; the table answers with one such order.
\<close>

definition db_Find :: "database \<Rightarrow> go_int \<Rightarrow> go_int \<Rightarrow> gorm_result \<times> User list \<times> database" where
  "db_Find db offset limit =
     (case next_fault db of
        (Some msg, db1) \<Rightarrow> (failed (DriverError msg), [], db1)
      | (None, db1) \<Rightarrow>
          (let ordered = rev (sort_key User.CreatedAt (filter live (rows db1)));
               skipped = drop (nat (sint offset)) ordered;
               page = (if sint limit < 0 then skipped else take (nat (sint limit)) skipped)
           in (succeeded (int (length page)), page, db1)))"

text \<open>
  \<^verbatim>\<open>db.Save(user)\<close>. With a zero primary key it is \<^verbatim>\<open>Create\<close>. Otherwise GORM
  sends an UPDATE of every column of the live row with that key, with \<^verbatim>\<open>updated_at\<close>
  set to the current time. When that statement succeeds without touching a row, GORM
  sends a second statement, an INSERT that on a conflict of the key overwrites the row
  (a soft-deleted one) except for its \<^verbatim>\<open>created_at\<close>. Each of the two statements
  takes its own entry of the fault schedule.
\<close>

definition db_Save :: "database \<Rightarrow> User \<Rightarrow> gorm_result \<times> User \<times> database" where
  "db_Save db user =
     (if User.ID user = 0 then db_Create db user
      else
        (case next_fault db of
           (Some msg, db1) \<Rightarrow> (failed (DriverError msg), user, db1)
         | (None, db1) \<Rightarrow>
             (let saved = user\<lparr>User.UpdatedAt := now db1\<rparr>;
                  others = filter (\<lambda>r. User.ID r \<noteq> User.ID user) (rows db1);
                  clash = (\<exists>r \<in> set others. User.Username r = User.Username user
                             \<or> User.Email r = User.Email user)
              in if \<exists>r \<in> set (rows db1). User.ID r = User.ID user \<and> live r
                 then
                   (if clash then (failed (DriverError (unique_violation db1)), saved, db1)
                    else (succeeded 1, saved,
                          db1\<lparr>rows := map (\<lambda>r. if User.ID r = User.ID user \<and> live r
                                                  then store_row db1 saved else r) (rows db1)\<rparr>))
                 else
                   (case next_fault db1 of
                      (Some msg, db2) \<Rightarrow> (failed (DriverError msg), saved, db2)
                    | (None, db2) \<Rightarrow>
                        if clash then (failed (DriverError (unique_violation db2)), saved, db2)
                        else if \<exists>r \<in> set (rows db2). User.ID r = User.ID user
                        then (succeeded 1, saved,
                              db2\<lparr>rows := map (\<lambda>r. if User.ID r = User.ID user
                                                      then (store_row db2 saved)\<lparr>User.CreatedAt := User.CreatedAt r\<rparr>
                                                      else r) (rows db2)\<rparr>)
                        else (succeeded 1, saved, db2\<lparr>rows := rows db2 @ [store_row db2 saved]\<rparr>)))))"

text \<open>
  \<^verbatim>\<open>db.Delete(&models.User{}, id)\<close>: because the model has a \<^verbatim>\<open>gorm.DeletedAt\<close>
  field this is an UPDATE that sets the marker of the live rows with that key.
\<close>

definition db_Delete :: "database \<Rightarrow> nat \<Rightarrow> gorm_result \<times> database" where
  "db_Delete db uid =
     (case next_fault db of
        (Some msg, db1) \<Rightarrow> (failed (DriverError msg), db1)
      | (None, db1) \<Rightarrow>
          (succeeded (int (length (filter (\<lambda>r. User.ID r = uid \<and> live r) (rows db1)))),
           db1\<lparr>rows := map (\<lambda>r. if User.ID r = uid \<and> live r
                                 then r\<lparr>DeletedAt := Some (col_time db1 (now db1))\<rparr> else r)
                             (rows db1)\<rparr>))"


section \<open>The repository\<close>

text \<open>
  The interface \<^verbatim>\<open>repository.UserRepository\<close>. The service knows the store only
  through it, so the service functions below take any implementation over any state
  \<open>'db\<close>. A method that receives \<^verbatim>\<open>*models.User\<close> returns the struct as the call
  leaves it.
\<close>

record 'db UserRepository =
  Create :: "'db \<Rightarrow> User \<Rightarrow> error option \<times> User \<times> 'db"
  GetByID :: "'db \<Rightarrow> nat \<Rightarrow> (error + User) \<times> 'db"
  GetByEmail :: "'db \<Rightarrow> string \<Rightarrow> (error + User) \<times> 'db"
  GetByUsername :: "'db \<Rightarrow> string \<Rightarrow> (error + User) \<times> 'db"
  List :: "'db \<Rightarrow> go_int \<Rightarrow> go_int \<Rightarrow> (error + User list \<times> int) \<times> 'db"
  Update :: "'db \<Rightarrow> User \<Rightarrow> error option \<times> User \<times> 'db"
  Delete :: "'db \<Rightarrow> nat \<Rightarrow> error option \<times> 'db"

text \<open>
  \<^verbatim>\<open>GormUserRepository\<close>, the implementation over the table. Logging has no effect
  on results and is left out.
\<close>

definition isUniqueConstraintError :: "gorm_error option \<Rightarrow> bool" where
  "isUniqueConstraintError err =
     (case err of
        None \<Rightarrow> False
      | Some e \<Rightarrow> Error_text e = ''ERROR: duplicate key value violates unique constraint'')"

definition GormUserRepository_Create :: "database \<Rightarrow> User \<Rightarrow> error option \<times> User \<times> database" where
  "GormUserRepository_Create db user =
     (case db_Create db user of
        (result, user', db') \<Rightarrow>
          if Error result \<noteq> None then
            (if isUniqueConstraintError (Error result) then (Some ErrConflict, user', db')
             else (Some ErrDatabase, user', db'))
          else (None, user', db'))"

definition GormUserRepository_GetByID :: "database \<Rightarrow> nat \<Rightarrow> (error + User) \<times> database" where
  "GormUserRepository_GetByID db uid =
     (case db_First db (\<lambda>r. User.ID r = uid) of
        (result, user, db') \<Rightarrow>
          (case Error result of
             Some e \<Rightarrow>
               if e = ErrRecordNotFound then (Inl ErrNotFound, db') else (Inl ErrDatabase, db')
           | None \<Rightarrow> (Inr user, db')))"

definition GormUserRepository_GetByEmail :: "database \<Rightarrow> string \<Rightarrow> (error + User) \<times> database" where
  "GormUserRepository_GetByEmail db email =
     (case db_First db (\<lambda>r. User.Email r = email) of
        (result, user, db') \<Rightarrow>
          (case Error result of
             Some e \<Rightarrow>
               if e = ErrRecordNotFound then (Inl ErrNotFound, db') else (Inl ErrDatabase, db')
           | None \<Rightarrow> (Inr user, db')))"

definition GormUserRepository_GetByUsername :: "database \<Rightarrow> string \<Rightarrow> (error + User) \<times> database" where
  "GormUserRepository_GetByUsername db username =
     (case db_First db (\<lambda>r. User.Username r = username) of
        (result, user, db') \<Rightarrow>
          (case Error result of
             Some e \<Rightarrow>
               if e = ErrRecordNotFound then (Inl ErrNotFound, db') else (Inl ErrDatabase, db')
           | None \<Rightarrow> (Inr user, db')))"

definition GormUserRepository_List ::
  "database \<Rightarrow> go_int \<Rightarrow> go_int \<Rightarrow> (error + User list \<times> int) \<times> database" where
  "GormUserRepository_List db offset limit =
     (case db_Count db of
        (counted, count, db1) \<Rightarrow>
          if Error counted \<noteq> None then (Inl ErrDatabase, db1)
          else
            (case db_Find db1 offset limit of
               (result, users, db2) \<Rightarrow>
                 if Error result \<noteq> None then (Inl ErrDatabase, db2)
                 else (Inr (users, count), db2)))"

definition GormUserRepository_Update :: "database \<Rightarrow> User \<Rightarrow> error option \<times> User \<times> database" where
  "GormUserRepository_Update db user =
     (case db_Save db user of
        (result, user', db') \<Rightarrow>
          if Error result \<noteq> None then
            (if isUniqueConstraintError (Error result) then (Some ErrConflict, user', db')
             else (Some ErrDatabase, user', db'))
          else if RowsAffected result = 0 then (Some ErrNotFound, user', db')
          else (None, user', db'))"

definition GormUserRepository_Delete :: "database \<Rightarrow> nat \<Rightarrow> error option \<times> database" where
  "GormUserRepository_Delete db uid =
     (case db_Delete db uid of
        (result, db') \<Rightarrow>
          if Error result \<noteq> None then (Some ErrDatabase, db')
          else if RowsAffected result = 0 then (Some ErrNotFound, db')
          else (None, db'))"

definition NewUserRepository :: "database UserRepository" where
  "NewUserRepository =
     \<lparr>Create = GormUserRepository_Create,
      GetByID = GormUserRepository_GetByID,
      GetByEmail = GormUserRepository_GetByEmail,
      GetByUsername = GormUserRepository_GetByUsername,
      List = GormUserRepository_List,
      Update = GormUserRepository_Update,
      Delete = GormUserRepository_Delete\<rparr>"

section \<open>The service\<close>

text \<open>
  The two functions of \<^verbatim>\<open>golang.org/x/crypto/bcrypt\<close> that the service calls are a
  parameter: \<^verbatim>\<open>GenerateFromPassword(password, cost)\<close> gives a hash or an error (a
  password too long, a bad cost), \<^verbatim>\<open>CompareHashAndPassword(hash, password)\<close> gives
  \<open>None\<close> when the password verifies and an error otherwise. Nothing is assumed about
  how the two relate.
\<close>

record bcrypt =
  GenerateFromPassword :: "string \<Rightarrow> int \<Rightarrow> error + string"
  CompareHashAndPassword :: "string \<Rightarrow> string \<Rightarrow> error option"

definition DefaultCost :: int where
  "DefaultCost = 10"

definition CreateUser ::
  "'db UserRepository \<Rightarrow> bcrypt \<Rightarrow> 'db \<Rightarrow> CreateUserRequest \<Rightarrow> (error + UserResponse) \<times> 'db" where
  "CreateUser repo bc db req =
     (case GetByEmail repo db (CreateUserRequest.Email req) of
        (Inr _, db1) \<Rightarrow> (Inl ErrUserAlreadyExists, db1)
      | (Inl err, db1) \<Rightarrow>
          if err \<noteq> ErrNotFound then (Inl err, db1)
          else
            (case GenerateFromPassword bc (CreateUserRequest.Password req) DefaultCost of
               Inl err \<Rightarrow> (Inl err, db1)
             | Inr hashedPassword \<Rightarrow>
                 (let user = zero_User
                        \<lparr>User.Username := CreateUserRequest.Username req,
                         User.Email := CreateUserRequest.Email req,
                         PasswordHash := hashedPassword,
                         User.FirstName := CreateUserRequest.FirstName req,
                         User.LastName := CreateUserRequest.LastName req,
                         User.IsActive := True\<rparr>
                  in case Create repo db1 user of
                       (Some err, _, db2) \<Rightarrow>
                         if err = ErrConflict then (Inl ErrUserAlreadyExists, db2)
                         else (Inl err, db2)
                     | (None, user', db2) \<Rightarrow> (Inr (mapUserToResponse user'), db2))))"

definition GetUser :: "'db UserRepository \<Rightarrow> 'db \<Rightarrow> nat \<Rightarrow> (error + UserResponse) \<times> 'db" where
  "GetUser repo db uid =
     (case GetByID repo db uid of
        (Inl err, db1) \<Rightarrow>
          if err = ErrNotFound then (Inl ErrUserNotFound, db1) else (Inl err, db1)
      | (Inr user, db1) \<Rightarrow> (Inr (mapUserToResponse user), db1))"

definition ListUsers ::
  "'db UserRepository \<Rightarrow> 'db \<Rightarrow> go_int \<Rightarrow> go_int \<Rightarrow> (error + UserResponse list \<times> int) \<times> 'db" where
  "ListUsers repo db page pageSize =
     (let page = (if sint page < 1 then 1 else page);
          pageSize = (if sint pageSize < 1 then 10 else pageSize);
          offset = (page - 1) * pageSize
      in case List repo db offset pageSize of
           (Inl err, db1) \<Rightarrow> (Inl err, db1)
         | (Inr (users, count), db1) \<Rightarrow> (Inr (map mapUserToResponse users, count), db1))"

definition UpdateUser ::
  "'db UserRepository \<Rightarrow> bcrypt \<Rightarrow> 'db \<Rightarrow> nat \<Rightarrow> UpdateUserRequest \<Rightarrow> (error + UserResponse) \<times> 'db" where
  "UpdateUser repo bc db uid req =
     (case GetByID repo db uid of
        (Inl err, db1) \<Rightarrow>
          if err = ErrNotFound then (Inl ErrUserNotFound, db1) else (Inl err, db1)
      | (Inr user, db1) \<Rightarrow>
          (let user = user\<lparr>User.FirstName := UpdateUserRequest.FirstName req,
                           User.LastName := UpdateUserRequest.LastName req\<rparr>;
               hashed =
                 (if UpdateUserRequest.Password req \<noteq> [] then
                    (case GenerateFromPassword bc (UpdateUserRequest.Password req) DefaultCost of
                       Inl err \<Rightarrow> Inl err
                     | Inr hashedPassword \<Rightarrow> Inr (user\<lparr>PasswordHash := hashedPassword\<rparr>))
                  else Inr user)
           in case hashed of
                Inl err \<Rightarrow> (Inl err, db1)
              | Inr user \<Rightarrow>
                  (case Update repo db1 user of
                     (Some err, _, db2) \<Rightarrow> (Inl err, db2)
                   | (None, user', db2) \<Rightarrow> (Inr (mapUserToResponse user'), db2))))"

definition DeleteUser :: "'db UserRepository \<Rightarrow> 'db \<Rightarrow> nat \<Rightarrow> error option \<times> 'db" where
  "DeleteUser repo db uid =
     (case Delete repo db uid of
        (Some err, db1) \<Rightarrow>
          if err = ErrNotFound then (Some ErrUserNotFound, db1) else (Some err, db1)
      | (None, db1) \<Rightarrow> (None, db1))"

definition AuthenticateUser ::
  "'db UserRepository \<Rightarrow> bcrypt \<Rightarrow> 'db \<Rightarrow> string \<Rightarrow> string \<Rightarrow> (error + UserResponse) \<times> 'db" where
  "AuthenticateUser repo bc db email password =
     (case GetByEmail repo db email of
        (Inl err, db1) \<Rightarrow>
          if err = ErrNotFound then (Inl ErrInvalidCredentials, db1) else (Inl err, db1)
      | (Inr user, db1) \<Rightarrow>
          (case CompareHashAndPassword bc (PasswordHash user) password of
             Some _ \<Rightarrow> (Inl ErrInvalidCredentials, db1)
           | None \<Rightarrow> (Inr (mapUserToResponse user), db1)))"


section \<open>Concrete data for the examples\<close>

text \<open>
  A stand-in for bcrypt, used only to run the functions on concrete inputs. It has the
  interface, the errors and the 72-byte behaviour of \<^verbatim>\<open>golang.org/x/crypto/bcrypt\<close>:
  \<^verbatim>\<open>GenerateFromPassword\<close> refuses a password of more than 72 bytes, and
  \<^verbatim>\<open>CompareHashAndPassword\<close> reads only the first 72 bytes of the password. It is not
  bcrypt: it has no salt, so it gives one hash per password, and its hash is no secret.
\<close>

definition demo_bcrypt :: bcrypt where
  "demo_bcrypt =
     \<lparr>GenerateFromPassword = (\<lambda>password cost.
         if length password > 72
         then Inl (BcryptError ''bcrypt: password length exceeds 72 bytes'')
         else Inr (''$2a$10$'' @ rev password)),
      CompareHashAndPassword = (\<lambda>hash password.
         if hash = ''$2a$10$'' @ rev (take 72 password) then None
         else Some (BcryptError
           ''crypto/bcrypt: hashedPassword is not the hash of the given password''))\<rparr>"

definition alice :: User where
  "alice =
     \<lparr>User.ID = 1, User.Username = ''alice'', User.Email = ''alice@example.com'',
      PasswordHash = ''$2a$10$terces'', User.FirstName = ''Alice'',
      User.LastName = ''Liddell'', User.IsActive = True, User.CreatedAt = 5000,
      User.UpdatedAt = 5000, DeletedAt = None\<rparr>"

text \<open>
  A table as PostgreSQL behind the pgx driver keeps it: one live user, the clock in
  nanoseconds, timestamp columns in microseconds, and the unique-violation message in
  the driver's format (severity, the server's message with the index name, SQLSTATE).
\<close>

definition pg_db :: database where
  "pg_db =
     \<lparr>rows = [alice], last_id = 1, now = 1234567, faults = [],
      unique_violation =
        ''ERROR: duplicate key value violates unique constraint \"idx_app_users_email\" (SQLSTATE 23505)'',
      col_time = (\<lambda>t. t - t mod 1000)\<rparr>"

text \<open>
  The same table at a moment when the second statement to come fails: the driver reports
  a duplicate key, in exactly the words the repository compares with, as for an insert
  that loses the race against a concurrent one.
\<close>

definition racing_db :: database where
  "racing_db =
     pg_db\<lparr>faults := [None, Some ''ERROR: duplicate key value violates unique constraint'']\<rparr>"

text \<open>And at a moment when the second statement to come loses its connection.\<close>

definition failing_db :: database where
  "failing_db = pg_db\<lparr>faults := [None, Some ''unexpected EOF'']\<rparr>"

definition bob_request :: CreateUserRequest where
  "bob_request =
     \<lparr>CreateUserRequest.Username = ''bob'', CreateUserRequest.Email = ''bob@example.com'',
      CreateUserRequest.Password = ''hunter2'', CreateUserRequest.FirstName = ''Bob'',
      CreateUserRequest.LastName = ''Builder''\<rparr>"

definition rename_request :: UpdateUserRequest where
  "rename_request =
     \<lparr>UpdateUserRequest.FirstName = [], UpdateUserRequest.LastName = ''Pleasance'',
      UpdateUserRequest.Password = []\<rparr>"

definition rekey_request :: UpdateUserRequest where
  "rekey_request =
     \<lparr>UpdateUserRequest.FirstName = ''Alice'', UpdateUserRequest.LastName = ''Liddell'',
      UpdateUserRequest.Password = ''rabbit''\<rparr>"

text \<open>
  A repository that only records the offset and limit of each \<^verbatim>\<open>List\<close> call, to
  observe what the service asks of the store.
\<close>

definition spy_repo :: "(go_int \<times> go_int) list UserRepository" where
  "spy_repo =
     \<lparr>Create = (\<lambda>calls user. (None, user, calls)),
      GetByID = (\<lambda>calls uid. (Inl ErrNotFound, calls)),
      GetByEmail = (\<lambda>calls email. (Inl ErrNotFound, calls)),
      GetByUsername = (\<lambda>calls username. (Inl ErrNotFound, calls)),
      List = (\<lambda>calls offset limit. (Inr ([], 0), calls @ [(offset, limit)])),
      Update = (\<lambda>calls user. (None, user, calls)),
      Delete = (\<lambda>calls uid. (None, calls))\<rparr>"

text \<open>
  A repository whose row vanishes between the fetch and the update, as a concurrent
  delete would make it: \<^verbatim>\<open>GetByID\<close> finds the user, \<^verbatim>\<open>Update\<close> reports \<^verbatim>\<open>ErrNotFound\<close>.
\<close>

definition vanishing_repo :: "unit UserRepository" where
  "vanishing_repo =
     \<lparr>Create = (\<lambda>st user. (Some ErrDatabase, user, st)),
      GetByID = (\<lambda>st uid. (Inr alice, st)),
      GetByEmail = (\<lambda>st email. (Inl ErrNotFound, st)),
      GetByUsername = (\<lambda>st username. (Inl ErrNotFound, st)),
      List = (\<lambda>st offset limit. (Inr ([], 0), st)),
      Update = (\<lambda>st user. (Some ErrNotFound, user, st)),
      Delete = (\<lambda>st uid. (Some ErrNotFound, st))\<rparr>"

section \<open>Unfolding lemmas\<close>

lemmas repo_defs =
  NewUserRepository_def GormUserRepository_Create_def GormUserRepository_GetByID_def
  GormUserRepository_GetByEmail_def GormUserRepository_GetByUsername_def
  GormUserRepository_List_def GormUserRepository_Update_def GormUserRepository_Delete_def
  isUniqueConstraintError_def

lemmas db_defs =
  db_Create_def db_First_def db_Count_def db_Find_def db_Save_def db_Delete_def
  next_fault_def succeeded_def failed_def live_def store_row_def violates_unique_def
  zero_User_def

lemmas demo_defs =
  pg_db_def alice_def demo_bcrypt_def bob_request_def rename_request_def rekey_request_def
  racing_db_def failing_db_def DefaultCost_def

section \<open>Facts about the table and the repository\<close>

lemma next_fault_none: "faults db = [] \<Longrightarrow> next_fault db = (None, db)"
  by (simp add: next_fault_def)

lemma next_fault_state: "snd (next_fault db) = db\<lparr>faults := tl (faults db)\<rparr>"
  by (cases "faults db") (simp_all add: next_fault_def)

lemma no_fault_state: "faults db = [] \<Longrightarrow> db\<lparr>faults := tl (faults db)\<rparr> = db"
  by simp

lemma find_none: "\<forall>y \<in> set xs. \<not> P y \<Longrightarrow> find P xs = None"
  by (simp add: find_None_iff)

lemma find_some_set: "find P xs = Some x \<Longrightarrow> x \<in> set xs \<and> P x"
  by (auto simp: find_Some_iff)

lemma find_unique:
  assumes x: "x \<in> set xs" "P x" and only: "\<forall>y \<in> set xs. P y \<longrightarrow> y = x"
  shows "find P xs = Some x"
proof (cases "find P xs")
  case None
  with x show ?thesis by (simp add: find_None_iff)
next
  case (Some y)
  then have "y \<in> set xs \<and> P y" by (rule find_some_set)
  with only have "y = x" by blast
  with Some show ?thesis by simp
qed

lemma db_First_state:
  assumes run: "db_First db cond = (result, user, db')"
  shows "db' = db\<lparr>faults := tl (faults db)\<rparr>"
proof -
  obtain f dbn where nf: "next_fault db = (f, dbn)" by (cases "next_fault db")
  with next_fault_state [of db] have dbn: "dbn = db\<lparr>faults := tl (faults db)\<rparr>" by simp
  from run nf have "db' = dbn"
    by (cases f; cases "find (\<lambda>r. cond r \<and> live r) (sort_key User.ID (rows dbn))")
       (simp_all add: db_First_def)
  with dbn show ?thesis by simp
qed

lemma db_First_found:
  assumes run: "db_First db cond = (result, user, db')" and ok: "Error result = None"
  shows "user \<in> set (rows db) \<and> cond user \<and> live user"
proof -
  obtain f dbn where nf: "next_fault db = (f, dbn)" by (cases "next_fault db")
  with next_fault_state [of db] have rows: "rows dbn = rows db" by simp
  from run nf ok have "find (\<lambda>r. cond r \<and> live r) (sort_key User.ID (rows dbn)) = Some user"
    by (cases f; cases "find (\<lambda>r. cond r \<and> live r) (sort_key User.ID (rows dbn))")
       (auto simp: db_First_def failed_def succeeded_def)
  then show ?thesis
    using find_some_set [of "\<lambda>r. cond r \<and> live r" "sort_key User.ID (rows db)" user] rows
    by simp
qed

lemma db_First_absent:
  "faults db = [] \<Longrightarrow> \<forall>r \<in> set (rows db). live r \<longrightarrow> \<not> cond r \<Longrightarrow>
     db_First db cond = (failed ErrRecordNotFound, zero_User, db)"
proof -
  assume nofault: "faults db = []" and none: "\<forall>r \<in> set (rows db). live r \<longrightarrow> \<not> cond r"
  from none have "find (\<lambda>r. cond r \<and> live r) (sort_key User.ID (rows db)) = None"
    by (intro find_none) auto
  with nofault show ?thesis
    by (simp add: db_First_def next_fault_none)
qed

lemma db_First_present:
  "faults db = [] \<Longrightarrow> u \<in> set (rows db) \<Longrightarrow> live u \<Longrightarrow> cond u \<Longrightarrow>
   \<forall>r \<in> set (rows db). cond r \<and> live r \<longrightarrow> r = u \<Longrightarrow>
     db_First db cond = (succeeded 1, u, db)"
proof -
  assume nofault: "faults db = []" and u: "u \<in> set (rows db)" "live u" "cond u"
    and only: "\<forall>r \<in> set (rows db). cond r \<and> live r \<longrightarrow> r = u"
  have "find (\<lambda>r. cond r \<and> live r) (sort_key User.ID (rows db)) = Some u"
  proof (rule find_unique)
    show "u \<in> set (sort_key User.ID (rows db))" using u by simp
    show "cond u \<and> live u" using u by simp
    show "\<forall>y \<in> set (sort_key User.ID (rows db)). cond y \<and> live y \<longrightarrow> y = u"
      using only by simp
  qed
  with nofault show ?thesis
    by (simp add: db_First_def next_fault_none)
qed

lemma db_First_some:
  assumes nofault: "faults db = []"
    and u: "u \<in> set (rows db)" "live u" "cond u"
  shows "\<exists>r. db_First db cond = (succeeded 1, r, db)"
proof -
  from u have "\<exists>x. x \<in> set (sort_key User.ID (rows db)) \<and> cond x \<and> live x"
    by (intro exI [of _ u]) simp
  then have "find (\<lambda>r. cond r \<and> live r) (sort_key User.ID (rows db)) \<noteq> None"
    by (simp only: find_None_iff not_not)
  then obtain r where "find (\<lambda>r. cond r \<and> live r) (sort_key User.ID (rows db)) = Some r"
    by blast
  with nofault show ?thesis
    by (simp add: db_First_def next_fault_none)
qed

lemma GetByID_absent:
  "faults db = [] \<Longrightarrow> \<forall>r \<in> set (rows db). live r \<longrightarrow> User.ID r \<noteq> uid \<Longrightarrow>
     GormUserRepository_GetByID db uid = (Inl ErrNotFound, db)"
  by (simp add: GormUserRepository_GetByID_def db_First_absent failed_def)

lemma GetByID_present:
  "faults db = [] \<Longrightarrow> u \<in> set (rows db) \<Longrightarrow> live u \<Longrightarrow>
   \<forall>r \<in> set (rows db). User.ID r = User.ID u \<and> live r \<longrightarrow> r = u \<Longrightarrow>
     GormUserRepository_GetByID db (User.ID u) = (Inr u, db)"
  by (simp add: GormUserRepository_GetByID_def db_First_present succeeded_def)

lemma GetByID_row:
  assumes nofault: "faults db = []"
    and u: "u \<in> set (rows db)" "live u"
    and pk: "distinct (map User.ID (rows db))"
  shows "GormUserRepository_GetByID db (User.ID u) = (Inr u, db)"
proof -
  have inj: "inj_on User.ID (set (rows db))"
    using pk by (simp add: distinct_map)
  have "\<forall>r \<in> set (rows db). User.ID r = User.ID u \<and> live r \<longrightarrow> r = u"
    using inj u by (simp add: inj_on_def)
  with nofault u show ?thesis by (intro GetByID_present)
qed

lemma GetByID_state:
  assumes "GormUserRepository_GetByID db uid = (res, db')"
  shows "db' = db\<lparr>faults := tl (faults db)\<rparr>"
proof -
  obtain result user dbn where first: "db_First db (\<lambda>r. User.ID r = uid) = (result, user, dbn)"
    by (cases "db_First db (\<lambda>r. User.ID r = uid)") auto
  with assms have "db' = dbn"
    by (cases "Error result") (simp_all add: GormUserRepository_GetByID_def split: if_splits)
  with db_First_state [OF first] show ?thesis by simp
qed

lemma GetByEmail_state:
  assumes "GormUserRepository_GetByEmail db email = (res, db')"
  shows "db' = db\<lparr>faults := tl (faults db)\<rparr>"
proof -
  obtain result user dbn where first: "db_First db (\<lambda>r. User.Email r = email) = (result, user, dbn)"
    by (cases "db_First db (\<lambda>r. User.Email r = email)") auto
  with assms have "db' = dbn"
    by (cases "Error result") (simp_all add: GormUserRepository_GetByEmail_def split: if_splits)
  with db_First_state [OF first] show ?thesis by simp
qed

lemma GetByEmail_absent:
  "faults db = [] \<Longrightarrow> \<forall>r \<in> set (rows db). live r \<longrightarrow> User.Email r \<noteq> email \<Longrightarrow>
     GormUserRepository_GetByEmail db email = (Inl ErrNotFound, db)"
  by (simp add: GormUserRepository_GetByEmail_def db_First_absent failed_def)

lemma GetByEmail_row:
  assumes nofault: "faults db = []"
    and u: "u \<in> set (rows db)" "live u"
    and emails: "distinct (map User.Email (rows db))"
  shows "GormUserRepository_GetByEmail db (User.Email u) = (Inr u, db)"
proof -
  have inj: "inj_on User.Email (set (rows db))"
    using emails by (simp add: distinct_map)
  have only: "\<forall>r \<in> set (rows db). User.Email r = User.Email u \<and> live r \<longrightarrow> r = u"
    using inj u by (simp add: inj_on_def)
  have "db_First db (\<lambda>r. User.Email r = User.Email u) = (succeeded 1, u, db)"
    using nofault u(1,2) _ only by (rule db_First_present) simp
  then show ?thesis
    by (simp add: GormUserRepository_GetByEmail_def succeeded_def)
qed

lemma GetByEmail_some:
  assumes nofault: "faults db = []"
    and u: "u \<in> set (rows db)" "live u" "User.Email u = email"
  shows "\<exists>r. GormUserRepository_GetByEmail db email = (Inr r, db)"
proof -
  from db_First_some [OF nofault u(1,2), of "\<lambda>r. User.Email r = email"] u(3)
  obtain r where "db_First db (\<lambda>r. User.Email r = email) = (succeeded 1, r, db)"
    by blast
  then show ?thesis
    by (simp add: GormUserRepository_GetByEmail_def succeeded_def)
qed

text \<open>
  What \<open>Create\<close> does with a struct that carries no identifier: it takes the next
  identifier of the sequence and fills in the default of \<open>IsActive\<close> and the
  timestamps; the insert fails on a violated index and otherwise appends the row.
\<close>

lemma db_Create_fresh:
  assumes nofault: "next_fault db = (None, dbn)" and fresh: "User.ID user = 0"
  shows "db_Create db user =
     (if violates_unique (rows dbn)
           (user\<lparr>User.ID := Suc (last_id dbn), User.IsActive := True,
              User.CreatedAt := (if User.CreatedAt user = 0 then now dbn else User.CreatedAt user),
              User.UpdatedAt := (if User.UpdatedAt user = 0 then now dbn else User.UpdatedAt user)\<rparr>)
      then (failed (DriverError (unique_violation dbn)),
            user\<lparr>User.IsActive := True,
              User.CreatedAt := (if User.CreatedAt user = 0 then now dbn else User.CreatedAt user),
              User.UpdatedAt := (if User.UpdatedAt user = 0 then now dbn else User.UpdatedAt user)\<rparr>,
            dbn\<lparr>last_id := Suc (last_id dbn)\<rparr>)
      else (succeeded 1,
            user\<lparr>User.ID := Suc (last_id dbn), User.IsActive := True,
              User.CreatedAt := (if User.CreatedAt user = 0 then now dbn else User.CreatedAt user),
              User.UpdatedAt := (if User.UpdatedAt user = 0 then now dbn else User.UpdatedAt user)\<rparr>,
            dbn\<lparr>last_id := Suc (last_id dbn),
                rows := rows dbn @
                  [store_row dbn (user\<lparr>User.ID := Suc (last_id dbn), User.IsActive := True,
                     User.CreatedAt := (if User.CreatedAt user = 0 then now dbn else User.CreatedAt user),
                     User.UpdatedAt := (if User.UpdatedAt user = 0 then now dbn else User.UpdatedAt user)\<rparr>)]\<rparr>))"
  using nofault fresh
  by (simp add: db_Create_def Let_def store_row_def violates_unique_def)

lemma db_Create_fault:
  "next_fault db = (Some msg, dbn) \<Longrightarrow> db_Create db user = (failed (DriverError msg), user, dbn)"
  by (simp add: db_Create_def)

lemma Create_success:
  assumes run: "GormUserRepository_Create db user = (None, user', db')"
    and fresh: "User.ID user = 0"
  shows "user' = user\<lparr>User.ID := Suc (last_id db), User.IsActive := True,
            User.CreatedAt := (if User.CreatedAt user = 0 then now db else User.CreatedAt user),
            User.UpdatedAt := (if User.UpdatedAt user = 0 then now db else User.UpdatedAt user)\<rparr>
       \<and> db' = db\<lparr>faults := tl (faults db), last_id := Suc (last_id db),
            rows := rows db @ [store_row db user']\<rparr>
       \<and> \<not> violates_unique (rows db) user'"
proof -
  obtain f dbn where nf: "next_fault db = (f, dbn)" by (cases "next_fault db")
  with next_fault_state [of db] have dbn: "dbn = db\<lparr>faults := tl (faults db)\<rparr>" by simp
  have f: "f = None"
  proof (cases f)
    case (Some msg)
    with nf have "db_Create db user = (failed (DriverError msg), user, dbn)"
      by (simp add: db_Create_fault)
    with run have False
      by (simp add: GormUserRepository_Create_def failed_def split: if_splits)
    then show ?thesis ..
  qed simp
  let ?new = "user\<lparr>User.ID := Suc (last_id dbn), User.IsActive := True,
            User.CreatedAt := (if User.CreatedAt user = 0 then now dbn else User.CreatedAt user),
            User.UpdatedAt := (if User.UpdatedAt user = 0 then now dbn else User.UpdatedAt user)\<rparr>"
  note eq = db_Create_fresh [OF nf [unfolded f] fresh]
  have ok: "\<not> violates_unique (rows dbn) ?new"
  proof
    assume "violates_unique (rows dbn) ?new"
    with eq run show False
      by (simp add: GormUserRepository_Create_def failed_def split: if_splits)
  qed
  let ?db = "dbn\<lparr>last_id := Suc (last_id dbn), rows := rows dbn @ [store_row dbn ?new]\<rparr>"
  from eq ok have result: "GormUserRepository_Create db user = (None, ?new, ?db)"
    by (simp add: GormUserRepository_Create_def succeeded_def)
  have both: "(None :: error option, user', db') = (None, ?new, ?db)"
    using run [symmetric] result by (rule trans)
  from both have user': "user' = ?new" by blast
  from both have db': "db' = ?db" by blast
  from user' db' ok dbn show ?thesis
    by (simp add: store_row_def)
qed

lemma Create_new_user:
  assumes ins: "GormUserRepository_Create db
            \<lparr>User.ID = 0, User.Username = username, User.Email = email,
             PasswordHash = hashedPassword, User.FirstName = firstName,
             User.LastName = lastName, User.IsActive = True,
             User.CreatedAt = 0, User.UpdatedAt = 0, DeletedAt = None\<rparr>
          = (None, user', db')"
  shows "user' = \<lparr>User.ID = Suc (last_id db), User.Username = username, User.Email = email,
             PasswordHash = hashedPassword, User.FirstName = firstName,
             User.LastName = lastName, User.IsActive = True,
             User.CreatedAt = now db, User.UpdatedAt = now db, DeletedAt = None\<rparr>"
    and "rows db' = rows db @ [store_row db user']"
    and "faults db' = tl (faults db)"
    and "col_time db' = col_time db"
    and "\<forall>r \<in> set (rows db). User.ID r \<noteq> Suc (last_id db)"
proof -
  let ?new = "\<lparr>User.ID = 0, User.Username = username, User.Email = email,
             PasswordHash = hashedPassword, User.FirstName = firstName,
             User.LastName = lastName, User.IsActive = True,
             User.CreatedAt = 0, User.UpdatedAt = 0, DeletedAt = None\<rparr>"
  have fresh: "User.ID ?new = 0" by simp
  note made = Create_success [OF ins fresh]
  from made have user: "user' = ?new\<lparr>User.ID := Suc (last_id db), User.IsActive := True,
            User.CreatedAt := (if User.CreatedAt ?new = 0 then now db else User.CreatedAt ?new),
            User.UpdatedAt := (if User.UpdatedAt ?new = 0 then now db else User.UpdatedAt ?new)\<rparr>"
    by (rule conjunct1)
  then show user': "user' = \<lparr>User.ID = Suc (last_id db), User.Username = username, User.Email = email,
             PasswordHash = hashedPassword, User.FirstName = firstName,
             User.LastName = lastName, User.IsActive = True,
             User.CreatedAt = now db, User.UpdatedAt = now db, DeletedAt = None\<rparr>"
    by simp
  from made have state: "db' = db\<lparr>faults := tl (faults db), last_id := Suc (last_id db),
            rows := rows db @ [store_row db user']\<rparr>"
    by (rule conjunct2 [THEN conjunct1])
  show "rows db' = rows db @ [store_row db user']"
    by (subst state) simp
  show "faults db' = tl (faults db)"
    by (subst state) simp
  show "col_time db' = col_time db"
    by (subst state) simp
  from made have "\<not> violates_unique (rows db) user'"
    by (rule conjunct2 [THEN conjunct2])
  then have "\<forall>r \<in> set (rows db). User.ID r \<noteq> User.ID user'"
    unfolding violates_unique_def by blast
  moreover have "User.ID user' = Suc (last_id db)"
    by (subst user') simp
  ultimately show "\<forall>r \<in> set (rows db). User.ID r \<noteq> Suc (last_id db)"
    by simp
qed

text \<open>
  What \<open>Create\<close> returns is decided by the GORM error alone: no error is success, an
  error that \<open>isUniqueConstraintError\<close> accepts is \<open>ErrConflict\<close>, any other error is
  \<open>ErrDatabase\<close>.
\<close>

lemma Create_outcome:
  "fst (GormUserRepository_Create db user) =
     (case Error (fst (db_Create db user)) of
        None \<Rightarrow> None
      | Some e \<Rightarrow> if isUniqueConstraintError (Some e) then Some ErrConflict else Some ErrDatabase)"
  by (cases "db_Create db user"; cases "Error (fst (db_Create db user))")
     (simp_all add: GormUserRepository_Create_def)

text \<open>
  \<open>isUniqueConstraintError\<close> accepts exactly one message, so an insert that repeats the
  username or email of a row is \<open>ErrConflict\<close> only behind a driver that reports the
  violation in exactly these words, and \<open>ErrDatabase\<close> behind any other.
\<close>

lemma Create_duplicate:
  assumes nofault: "faults db = []" and fresh: "User.ID user = 0"
    and dup: "\<exists>r \<in> set (rows db). User.Username r = User.Username user
                \<or> User.Email r = User.Email user"
  shows "fst (GormUserRepository_Create db user) =
     (if unique_violation db = ''ERROR: duplicate key value violates unique constraint''
      then Some ErrConflict else Some ErrDatabase)"
proof -
  from dup have "violates_unique (rows db)
           (user\<lparr>User.ID := Suc (last_id db), User.IsActive := True,
              User.CreatedAt := (if User.CreatedAt user = 0 then now db else User.CreatedAt user),
              User.UpdatedAt := (if User.UpdatedAt user = 0 then now db else User.UpdatedAt user)\<rparr>)"
    by (simp add: violates_unique_def) blast
  with db_Create_fresh [OF next_fault_none [OF nofault] fresh]
  have "Error (fst (db_Create db user)) = Some (DriverError (unique_violation db))"
    by (simp add: failed_def)
  then show ?thesis
    by (simp add: Create_outcome isUniqueConstraintError_def)
qed

lemma db_Delete_nofault:
  "faults db = [] \<Longrightarrow>
     db_Delete db uid =
       (succeeded (int (length (filter (\<lambda>r. User.ID r = uid \<and> live r) (rows db)))),
        db\<lparr>rows := map (\<lambda>r. if User.ID r = uid \<and> live r
                             then r\<lparr>DeletedAt := Some (col_time db (now db))\<rparr> else r)
                         (rows db)\<rparr>)"
  by (simp add: db_Delete_def next_fault_none)

lemma Delete_absent:
  assumes nofault: "faults db = []"
    and none: "\<forall>r \<in> set (rows db). live r \<longrightarrow> User.ID r \<noteq> uid"
  shows "GormUserRepository_Delete db uid = (Some ErrNotFound, db)"
proof -
  from none have empty: "filter (\<lambda>r. User.ID r = uid \<and> live r) (rows db) = []"
    by (simp add: filter_empty_conv) blast
  have same: "map (\<lambda>r. if User.ID r = uid \<and> live r
                             then r\<lparr>DeletedAt := Some (col_time db (now db))\<rparr> else r)
                         (rows db) = rows db"
  proof (rule map_idI)
    fix x
    assume "x \<in> set (rows db)"
    with none have "\<not> (User.ID x = uid \<and> live x)" by blast
    then show "(if User.ID x = uid \<and> live x
                then x\<lparr>DeletedAt := Some (col_time db (now db))\<rparr> else x) = x"
      by (rule if_not_P)
  qed
  from nofault empty same show ?thesis
    by (simp add: GormUserRepository_Delete_def db_Delete_nofault succeeded_def)
qed

lemma Delete_present:
  assumes nofault: "faults db = []"
    and u: "u \<in> set (rows db)" "live u" "User.ID u = uid"
  shows "GormUserRepository_Delete db uid =
     (None, db\<lparr>rows := map (\<lambda>r. if User.ID r = uid \<and> live r
                             then r\<lparr>DeletedAt := Some (col_time db (now db))\<rparr> else r)
                         (rows db)\<rparr>)"
proof -
  from u have "u \<in> set (filter (\<lambda>r. User.ID r = uid \<and> live r) (rows db))"
    by simp
  then have "filter (\<lambda>r. User.ID r = uid \<and> live r) (rows db) \<noteq> []"
    by (metis empty_iff empty_set)
  with nofault show ?thesis
    by (simp add: GormUserRepository_Delete_def db_Delete_nofault succeeded_def)
qed

lemma List_nofault:
  "faults db = [] \<Longrightarrow>
     GormUserRepository_List db offset limit =
       (Inr (if sint limit < 0
             then drop (nat (sint offset)) (rev (sort_key User.CreatedAt (filter live (rows db))))
             else take (nat (sint limit))
                    (drop (nat (sint offset)) (rev (sort_key User.CreatedAt (filter live (rows db))))),
             int (length (filter live (rows db)))),
        db)"
  by (simp add: GormUserRepository_List_def db_Count_def db_Find_def next_fault_none
      succeeded_def Let_def)

lemma List_live:
  assumes nofault: "faults db = []"
    and run: "GormUserRepository_List db offset limit = (Inr (users, count), db')"
  shows "set users \<subseteq> {r \<in> set (rows db). live r}"
proof -
  let ?all = "rev (sort_key User.CreatedAt (filter live (rows db)))"
  have all: "set ?all = {r \<in> set (rows db). live r}"
    by auto
  from run List_nofault [OF nofault, of offset limit]
  have "users = (if sint limit < 0 then drop (nat (sint offset)) ?all
                 else take (nat (sint limit)) (drop (nat (sint offset)) ?all))"
    by simp
  then have "set users \<subseteq> set ?all"
    using set_drop_subset [of "nat (sint offset)" ?all]
      set_take_subset [of "nat (sint limit)" "drop (nat (sint offset)) ?all"]
    by (cases "sint limit < 0") auto
  with all show ?thesis by simp
qed

lemma db_Save_update:
  assumes nofault: "faults db = []" and key: "User.ID user \<noteq> 0"
    and row: "\<exists>r \<in> set (rows db). User.ID r = User.ID user \<and> live r"
    and noclash: "\<forall>r \<in> set (rows db). User.ID r \<noteq> User.ID user \<longrightarrow>
                    User.Username r \<noteq> User.Username user \<and> User.Email r \<noteq> User.Email user"
  shows "db_Save db user =
     (succeeded 1, user\<lparr>User.UpdatedAt := now db\<rparr>,
      db\<lparr>rows := map (\<lambda>r. if User.ID r = User.ID user \<and> live r
                           then store_row db (user\<lparr>User.UpdatedAt := now db\<rparr>) else r)
                       (rows db)\<rparr>)"
proof -
  from nofault key row noclash show ?thesis
    by (simp add: db_Save_def next_fault_none Let_def)
qed

text \<open>
  \<open>Update\<close> of a struct that carries the key, username and email of the live row \<open>u\<close>,
  in a table that satisfies its primary key and unique indexes: the row \<open>u\<close>, and no
  other, is replaced by the struct with the current time as \<open>UpdatedAt\<close>.
\<close>

lemma Update_present:
  assumes nofault: "faults db = []"
    and u: "u \<in> set (rows db)" "live u" "User.ID u \<noteq> 0"
    and pk: "distinct (map User.ID (rows db))"
    and uniq: "\<forall>r \<in> set (rows db). r \<noteq> u \<longrightarrow>
                 User.Username r \<noteq> User.Username u \<and> User.Email r \<noteq> User.Email u"
    and same: "User.ID user = User.ID u" "User.Username user = User.Username u"
              "User.Email user = User.Email u"
  shows "GormUserRepository_Update db user =
     (None, user\<lparr>User.UpdatedAt := now db\<rparr>,
      db\<lparr>rows := map (\<lambda>r. if r = u then store_row db (user\<lparr>User.UpdatedAt := now db\<rparr>) else r)
                       (rows db)\<rparr>)"
proof -
  have inj: "inj_on User.ID (set (rows db))"
    using pk by (simp add: distinct_map)
  have only: "(User.ID r = User.ID user \<and> live r) = (r = u)" if "r \<in> set (rows db)" for r
  proof
    assume "User.ID r = User.ID user \<and> live r"
    with same have "User.ID r = User.ID u" by simp
    with inj that u show "r = u" by (simp add: inj_on_def)
  next
    assume "r = u"
    with u same show "User.ID r = User.ID user \<and> live r" by simp
  qed
  have key: "User.ID user \<noteq> 0"
    using u same by simp
  have row: "\<exists>r \<in> set (rows db). User.ID r = User.ID user \<and> live r"
    using u same by (intro bexI [of _ u]) simp_all
  have noclash: "\<forall>r \<in> set (rows db). User.ID r \<noteq> User.ID user \<longrightarrow>
                    User.Username r \<noteq> User.Username user \<and> User.Email r \<noteq> User.Email user"
  proof (intro ballI impI)
    fix r
    assume r: "r \<in> set (rows db)" and "User.ID r \<noteq> User.ID user"
    with same have "r \<noteq> u" by auto
    with uniq r same show "User.Username r \<noteq> User.Username user \<and> User.Email r \<noteq> User.Email user"
      by simp
  qed
  have maps: "map (\<lambda>r. if User.ID r = User.ID user \<and> live r
                        then store_row db (user\<lparr>User.UpdatedAt := now db\<rparr>) else r) (rows db)
            = map (\<lambda>r. if r = u then store_row db (user\<lparr>User.UpdatedAt := now db\<rparr>) else r) (rows db)"
    by (rule map_cong) (simp_all add: only)
  from db_Save_update [OF nofault key row noclash] maps show ?thesis
    by (simp add: GormUserRepository_Update_def succeeded_def)
qed

text \<open>
  The primary key and the unique indexes are invariants of the table: no write of the
  repository introduces a repeated identifier, username or email.
\<close>

lemma Create_keeps_indexes:
  assumes ins: "GormUserRepository_Create db user = (None, user', db')"
    and fresh: "User.ID user = 0"
    and pk: "distinct (map User.ID (rows db))"
    and names: "distinct (map User.Username (rows db))"
    and emails: "distinct (map User.Email (rows db))"
  shows "distinct (map User.ID (rows db')) \<and> distinct (map User.Username (rows db'))
       \<and> distinct (map User.Email (rows db'))"
proof -
  note made = Create_success [OF ins fresh]
  from made have state: "db' = db\<lparr>faults := tl (faults db), last_id := Suc (last_id db),
            rows := rows db @ [store_row db user']\<rparr>"
    by (rule conjunct2 [THEN conjunct1])
  have rows: "rows db' = rows db @ [store_row db user']"
    by (subst state) simp
  from made have "\<not> violates_unique (rows db) user'"
    by (rule conjunct2 [THEN conjunct2])
  then have new: "User.ID user' \<notin> User.ID ` set (rows db)"
      "User.Username user' \<notin> User.Username ` set (rows db)"
      "User.Email user' \<notin> User.Email ` set (rows db)"
    unfolding violates_unique_def by force+
  from pk names emails new show ?thesis
    by (simp add: rows store_row_def)
qed

lemma Delete_keeps_indexes:
  assumes nofault: "faults db = []"
    and del: "GormUserRepository_Delete db uid = (outcome, db')"
  shows "map User.ID (rows db') = map User.ID (rows db)
       \<and> map User.Username (rows db') = map User.Username (rows db)
       \<and> map User.Email (rows db') = map User.Email (rows db)"
proof -
  let ?mark = "\<lambda>r. if User.ID r = uid \<and> live r
                   then r\<lparr>DeletedAt := Some (col_time db (now db))\<rparr> else r"
  have "snd (GormUserRepository_Delete db uid) = db\<lparr>rows := map ?mark (rows db)\<rparr>"
    by (simp add: GormUserRepository_Delete_def db_Delete_nofault [OF nofault])
  with del have rows: "rows db' = map ?mark (rows db)"
    by simp
  have "User.ID \<circ> ?mark = User.ID" "User.Username \<circ> ?mark = User.Username"
      "User.Email \<circ> ?mark = User.Email"
    by (simp_all add: fun_eq_iff)
  then show ?thesis
    by (simp add: rows)
qed

lemma Update_keeps_indexes:
  assumes nofault: "faults db = []"
    and u: "u \<in> set (rows db)" "live u" "User.ID u \<noteq> 0"
    and pk: "distinct (map User.ID (rows db))"
    and names: "distinct (map User.Username (rows db))"
    and emails: "distinct (map User.Email (rows db))"
    and same: "User.ID user = User.ID u" "User.Username user = User.Username u"
              "User.Email user = User.Email u"
    and upd: "GormUserRepository_Update db user = (outcome, user', db')"
  shows "map User.ID (rows db') = map User.ID (rows db)
       \<and> map User.Username (rows db') = map User.Username (rows db)
       \<and> map User.Email (rows db') = map User.Email (rows db)"
proof -
  let ?put = "\<lambda>r. if r = u then store_row db (user\<lparr>User.UpdatedAt := now db\<rparr>) else r"
  have uniq: "\<forall>r \<in> set (rows db). r \<noteq> u \<longrightarrow>
                 User.Username r \<noteq> User.Username u \<and> User.Email r \<noteq> User.Email u"
    using names emails u(1) by (auto simp: distinct_map inj_on_def)
  from Update_present [OF nofault u pk uniq same] upd
  have rows: "rows db' = map ?put (rows db)"
    by simp
  have "User.ID \<circ> ?put = User.ID" "User.Username \<circ> ?put = User.Username"
      "User.Email \<circ> ?put = User.Email"
    using same by (simp_all add: fun_eq_iff store_row_def)
  then show ?thesis
    by (simp add: rows)
qed

lemma GetUser_absent:
  assumes "faults db = []"
    and "\<forall>r \<in> set (rows db). live r \<longrightarrow> User.ID r \<noteq> uid"
  shows "GetUser NewUserRepository db uid = (Inl ErrUserNotFound, db)"
  using GetByID_absent [OF assms]
  by (simp add: GetUser_def NewUserRepository_def)

text \<open>What a successful \<open>CreateUser\<close> has done, for any repository and hasher.\<close>

lemma CreateUser_success:
  fixes repo :: "'db UserRepository"
  assumes "CreateUser repo bc db req = (Inr resp, db')"
  shows "\<exists>dba hashedPassword user'.
      GetByEmail repo db (CreateUserRequest.Email req) = (Inl ErrNotFound, dba)
      \<and> GenerateFromPassword bc (CreateUserRequest.Password req) DefaultCost = Inr hashedPassword
      \<and> Create repo dba
            \<lparr>User.ID = 0, User.Username = CreateUserRequest.Username req,
             User.Email = CreateUserRequest.Email req, PasswordHash = hashedPassword,
             User.FirstName = CreateUserRequest.FirstName req,
             User.LastName = CreateUserRequest.LastName req, User.IsActive = True,
             User.CreatedAt = 0, User.UpdatedAt = 0, DeletedAt = None\<rparr>
          = (None, user', db')
      \<and> resp = mapUserToResponse user'"
  using assms
  by (simp add: CreateUser_def Let_def zero_User_def
      split: prod.splits sum.splits option.splits if_splits)

text \<open>The same for the repository over the table: the new row and the view returned.\<close>

lemma CreateUser_gorm_success:
  assumes "CreateUser NewUserRepository bc db req = (Inr resp, db')"
  shows "\<exists>dba hashedPassword user'.
      GormUserRepository_GetByEmail db (CreateUserRequest.Email req) = (Inl ErrNotFound, dba)
      \<and> GenerateFromPassword bc (CreateUserRequest.Password req) DefaultCost = Inr hashedPassword
      \<and> GormUserRepository_Create dba
            \<lparr>User.ID = 0, User.Username = CreateUserRequest.Username req,
             User.Email = CreateUserRequest.Email req, PasswordHash = hashedPassword,
             User.FirstName = CreateUserRequest.FirstName req,
             User.LastName = CreateUserRequest.LastName req, User.IsActive = True,
             User.CreatedAt = 0, User.UpdatedAt = 0, DeletedAt = None\<rparr>
          = (None, user', db')
      \<and> resp = mapUserToResponse user'"
proof -
  have get: "GetByEmail NewUserRepository = GormUserRepository_GetByEmail"
    and ins: "Create NewUserRepository = GormUserRepository_Create"
    by (simp_all add: NewUserRepository_def)
  from CreateUser_success [OF assms] show ?thesis
    unfolding get ins .
qed

section \<open>Conflicts at the store\<close>

text \<open>
  C1 (the code at the failing input). Behind pgx a violated unique index is reported as
  \<^verbatim>\<open>ERROR: duplicate key value violates unique constraint "idx_app_users_email" (SQLSTATE 23505)\<close>.
  \<open>isUniqueConstraintError\<close> rejects that message, so creating a user with the email of
  the persisted, live user \<open>alice\<close> returns \<open>ErrDatabase\<close>, not \<open>ErrConflict\<close>; and the
  service, for a request with a fresh email and alice's username, returns
  \<open>ErrDatabase\<close> where \<open>ErrUserAlreadyExists\<close> is due.
\<close>

theorem Create_duplicate_on_pgx_is_ErrDatabase:
  "alice \<in> set (rows pg_db) \<and> live alice \<and> User.Email alice = ''alice@example.com''
   \<and> fst (db_Create pg_db
        \<lparr>User.ID = 0, User.Username = ''alice2'', User.Email = ''alice@example.com'',
         PasswordHash = ''$2a$10$x'', User.FirstName = ''Al'', User.LastName = ''Ice'',
         User.IsActive = True, User.CreatedAt = 0, User.UpdatedAt = 0, DeletedAt = None\<rparr>)
       = failed (DriverError
           ''ERROR: duplicate key value violates unique constraint \"idx_app_users_email\" (SQLSTATE 23505)'')
   \<and> isUniqueConstraintError (Some (DriverError
           ''ERROR: duplicate key value violates unique constraint \"idx_app_users_email\" (SQLSTATE 23505)''))
       = False
   \<and> fst (GormUserRepository_Create pg_db
        \<lparr>User.ID = 0, User.Username = ''alice2'', User.Email = ''alice@example.com'',
         PasswordHash = ''$2a$10$x'', User.FirstName = ''Al'', User.LastName = ''Ice'',
         User.IsActive = True, User.CreatedAt = 0, User.UpdatedAt = 0, DeletedAt = None\<rparr>)
       = Some ErrDatabase
   \<and> fst (CreateUser NewUserRepository demo_bcrypt pg_db
        (bob_request\<lparr>CreateUserRequest.Username := ''alice''\<rparr>)) = Inl ErrDatabase"
  by (simp add: CreateUser_def repo_defs db_defs demo_defs)

section \<open>Creating a user\<close>

text \<open>
  C2. \<open>CreateUser\<close> returns \<open>ErrUserAlreadyExists\<close> when the pre-check finds a user with
  the request's email, and also when the pre-check finds none but the store's \<open>Create\<close>
  reports \<open>ErrConflict\<close>. When the pre-check finds none, bcrypt hashes the password and
  \<open>Create\<close> succeeds, the user handed to the store has the request's username, email and
  names, \<open>IsActive = True\<close> and as \<open>PasswordHash\<close> the hash bcrypt returned (the plaintext
  is passed to bcrypt and nowhere else), and the result is the public view of the user
  as \<open>Create\<close> left it. Any other failure of the store or of bcrypt is returned as it is.
  Over the table the successful call appends exactly one row, with that hash and
  \<open>IsActive = True\<close>, under the identifier of the view; and a request whose email a
  live row already carries is answered with \<open>ErrUserAlreadyExists\<close>, the table unchanged.
\<close>

theorem CreateUser_already_exists_or_persists:
  fixes repo :: "'db UserRepository"
  shows
  "(GetByEmail repo db (CreateUserRequest.Email req) = (Inr existing, db') \<longrightarrow>
      CreateUser repo bc db req = (Inl ErrUserAlreadyExists, db'))
   \<and> (GetByEmail repo db (CreateUserRequest.Email req) = (Inl ErrNotFound, db')
        \<and> GenerateFromPassword bc (CreateUserRequest.Password req) DefaultCost = Inr hashedPassword
        \<and> Create repo db'
              \<lparr>User.ID = 0, User.Username = CreateUserRequest.Username req,
               User.Email = CreateUserRequest.Email req, PasswordHash = hashedPassword,
               User.FirstName = CreateUserRequest.FirstName req,
               User.LastName = CreateUserRequest.LastName req, User.IsActive = True,
               User.CreatedAt = 0, User.UpdatedAt = 0, DeletedAt = None\<rparr>
            = (Some ErrConflict, rejected, db'') \<longrightarrow>
      CreateUser repo bc db req = (Inl ErrUserAlreadyExists, db''))
   \<and> (GetByEmail repo db (CreateUserRequest.Email req) = (Inl ErrNotFound, db')
        \<and> GenerateFromPassword bc (CreateUserRequest.Password req) DefaultCost = Inr hashedPassword
        \<and> Create repo db'
              \<lparr>User.ID = 0, User.Username = CreateUserRequest.Username req,
               User.Email = CreateUserRequest.Email req, PasswordHash = hashedPassword,
               User.FirstName = CreateUserRequest.FirstName req,
               User.LastName = CreateUserRequest.LastName req, User.IsActive = True,
               User.CreatedAt = 0, User.UpdatedAt = 0, DeletedAt = None\<rparr>
            = (None, created, db'') \<longrightarrow>
      CreateUser repo bc db req = (Inr (mapUserToResponse created), db''))
   \<and> (GetByEmail repo db (CreateUserRequest.Email req) = (Inl err, db') \<and> err \<noteq> ErrNotFound \<longrightarrow>
      CreateUser repo bc db req = (Inl err, db'))
   \<and> (GetByEmail repo db (CreateUserRequest.Email req) = (Inl ErrNotFound, db')
        \<and> GenerateFromPassword bc (CreateUserRequest.Password req) DefaultCost = Inl err \<longrightarrow>
      CreateUser repo bc db req = (Inl err, db'))
   \<and> (GetByEmail repo db (CreateUserRequest.Email req) = (Inl ErrNotFound, db')
        \<and> GenerateFromPassword bc (CreateUserRequest.Password req) DefaultCost = Inr hashedPassword
        \<and> Create repo db'
              \<lparr>User.ID = 0, User.Username = CreateUserRequest.Username req,
               User.Email = CreateUserRequest.Email req, PasswordHash = hashedPassword,
               User.FirstName = CreateUserRequest.FirstName req,
               User.LastName = CreateUserRequest.LastName req, User.IsActive = True,
               User.CreatedAt = 0, User.UpdatedAt = 0, DeletedAt = None\<rparr>
            = (Some err, rejected, db'') \<and> err \<noteq> ErrConflict \<longrightarrow>
      CreateUser repo bc db req = (Inl err, db''))
   \<and> (\<forall>resp after. CreateUser NewUserRepository bc table req = (Inr resp, after) \<longrightarrow>
        (\<exists>hash row. GenerateFromPassword bc (CreateUserRequest.Password req) DefaultCost = Inr hash
           \<and> rows after = rows table @ [row]
           \<and> PasswordHash row = hash \<and> User.IsActive row
           \<and> User.Username row = CreateUserRequest.Username req
           \<and> User.Email row = CreateUserRequest.Email req
           \<and> User.ID row = UserResponse.ID resp \<and> live row))
   \<and> (faults table = [] \<and> u \<in> set (rows table) \<and> live u
        \<and> User.Email u = CreateUserRequest.Email req \<longrightarrow>
      CreateUser NewUserRepository bc table req = (Inl ErrUserAlreadyExists, table))"
proof -
  have found: "GetByEmail repo db (CreateUserRequest.Email req) = (Inr existing, db') \<longrightarrow>
      CreateUser repo bc db req = (Inl ErrUserAlreadyExists, db')"
    by (simp add: CreateUser_def)
  have other_get: "GetByEmail repo db (CreateUserRequest.Email req) = (Inl err, db')
      \<and> err \<noteq> ErrNotFound \<longrightarrow> CreateUser repo bc db req = (Inl err, db')"
    by (simp add: CreateUser_def)
  have other_hash: "GetByEmail repo db (CreateUserRequest.Email req) = (Inl ErrNotFound, db')
        \<and> GenerateFromPassword bc (CreateUserRequest.Password req) DefaultCost = Inl err \<longrightarrow>
      CreateUser repo bc db req = (Inl err, db')"
    by (simp add: CreateUser_def)
  have insert: "CreateUser repo bc db req =
      (case outcome of
         None \<Rightarrow> (Inr (mapUserToResponse user'), db'')
       | Some e \<Rightarrow> if e = ErrConflict then (Inl ErrUserAlreadyExists, db'') else (Inl e, db''))"
    if "GetByEmail repo db (CreateUserRequest.Email req) = (Inl ErrNotFound, db')"
      and "GenerateFromPassword bc (CreateUserRequest.Password req) DefaultCost = Inr hashedPassword"
      and "Create repo db'
              \<lparr>User.ID = 0, User.Username = CreateUserRequest.Username req,
               User.Email = CreateUserRequest.Email req, PasswordHash = hashedPassword,
               User.FirstName = CreateUserRequest.FirstName req,
               User.LastName = CreateUserRequest.LastName req, User.IsActive = True,
               User.CreatedAt = 0, User.UpdatedAt = 0, DeletedAt = None\<rparr>
            = (outcome, user', db'')"
    for outcome user'
    using that by (cases outcome) (simp_all add: CreateUser_def Let_def zero_User_def)
  have persisted: "\<exists>hash row.
           GenerateFromPassword bc (CreateUserRequest.Password req) DefaultCost = Inr hash
           \<and> rows after = rows table @ [row]
           \<and> PasswordHash row = hash \<and> User.IsActive row
           \<and> User.Username row = CreateUserRequest.Username req
           \<and> User.Email row = CreateUserRequest.Email req
           \<and> User.ID row = UserResponse.ID resp \<and> live row"
    if run: "CreateUser NewUserRepository bc table req = (Inr resp, after)" for resp after
  proof -
    from CreateUser_gorm_success [OF run]
    obtain dba hash user' where
      get: "GormUserRepository_GetByEmail table (CreateUserRequest.Email req) = (Inl ErrNotFound, dba)"
      and gen: "GenerateFromPassword bc (CreateUserRequest.Password req) DefaultCost = Inr hash"
      and ins: "GormUserRepository_Create dba
            \<lparr>User.ID = 0, User.Username = CreateUserRequest.Username req,
             User.Email = CreateUserRequest.Email req, PasswordHash = hash,
             User.FirstName = CreateUserRequest.FirstName req,
             User.LastName = CreateUserRequest.LastName req, User.IsActive = True,
             User.CreatedAt = 0, User.UpdatedAt = 0, DeletedAt = None\<rparr>
          = (None, user', after)"
      and resp: "resp = mapUserToResponse user'"
      by blast
    have dba: "rows dba = rows table"
      by (subst GetByEmail_state [OF get]) simp
    note made = Create_new_user [OF ins]
    let ?row = "store_row dba user'"
    have "rows after = rows table @ [?row]"
      using made(2) dba by simp
    moreover have "PasswordHash ?row = hash \<and> User.IsActive ?row
           \<and> User.Username ?row = CreateUserRequest.Username req
           \<and> User.Email ?row = CreateUserRequest.Email req \<and> live ?row"
      by (subst made(1))+ (simp add: store_row_def live_def)
    moreover have "User.ID ?row = UserResponse.ID resp"
      by (subst resp) (simp add: store_row_def mapUserToResponse_def)
    ultimately show ?thesis using gen by blast
  qed
  have taken: "CreateUser NewUserRepository bc table req = (Inl ErrUserAlreadyExists, table)"
    if "faults table = []" "u \<in> set (rows table)" "live u"
      "User.Email u = CreateUserRequest.Email req"
  proof -
    from GetByEmail_some [OF that]
    obtain r where "GetByEmail NewUserRepository table (CreateUserRequest.Email req) = (Inr r, table)"
      by (auto simp: NewUserRepository_def)
    then show ?thesis
      by (simp add: CreateUser_def)
  qed
  from found other_get other_hash insert [of "Some ErrConflict" rejected]
    insert [of None created] insert [of "Some err" rejected] persisted taken
  show ?thesis by simp
qed

theorem CreateUser_already_exists_or_persists_witness:
  "GetByEmail NewUserRepository pg_db ''alice@example.com'' = (Inr alice, pg_db)
   \<and> fst (CreateUser NewUserRepository demo_bcrypt pg_db
             (bob_request\<lparr>CreateUserRequest.Email := ''alice@example.com''\<rparr>))
        = Inl ErrUserAlreadyExists
   \<and> fst (GetByEmail NewUserRepository racing_db ''bob@example.com'') = Inl ErrNotFound
   \<and> GenerateFromPassword demo_bcrypt ''hunter2'' DefaultCost = Inr ''$2a$10$2retnuh''
   \<and> fst (Create NewUserRepository (snd (GetByEmail NewUserRepository racing_db ''bob@example.com''))
             \<lparr>User.ID = 0, User.Username = ''bob'', User.Email = ''bob@example.com'',
              PasswordHash = ''$2a$10$2retnuh'', User.FirstName = ''Bob'',
              User.LastName = ''Builder'', User.IsActive = True,
              User.CreatedAt = 0, User.UpdatedAt = 0, DeletedAt = None\<rparr>) = Some ErrConflict
   \<and> fst (CreateUser NewUserRepository demo_bcrypt racing_db bob_request) = Inl ErrUserAlreadyExists
   \<and> (\<exists>created after. CreateUser NewUserRepository demo_bcrypt pg_db bob_request
          = (Inr (mapUserToResponse created), after)
        \<and> PasswordHash created = ''$2a$10$2retnuh'' \<and> User.IsActive created
        \<and> rows after = rows pg_db @ [created\<lparr>User.CreatedAt := 1234000, User.UpdatedAt := 1234000\<rparr>])"
proof -
  let ?new = "\<lparr>User.ID = 0, User.Username = ''bob'', User.Email = ''bob@example.com'',
              PasswordHash = ''$2a$10$2retnuh'', User.FirstName = ''Bob'',
              User.LastName = ''Builder'', User.IsActive = True,
              User.CreatedAt = 0, User.UpdatedAt = 0, DeletedAt = None\<rparr>"
  let ?dup = "bob_request\<lparr>CreateUserRequest.Email := ''alice@example.com''\<rparr>"
  have found: "GetByEmail NewUserRepository pg_db (CreateUserRequest.Email ?dup) = (Inr alice, pg_db)"
    by (simp add: repo_defs db_defs demo_defs)
  have dup: "CreateUser NewUserRepository demo_bcrypt pg_db ?dup = (Inl ErrUserAlreadyExists, pg_db)"
    using found
      CreateUser_already_exists_or_persists [where repo = NewUserRepository and db = pg_db
        and req = ?dup and existing = alice and db' = pg_db and bc = demo_bcrypt,
        THEN conjunct1]
    by blast
  have fields: "CreateUserRequest.Email bob_request = ''bob@example.com''
      \<and> CreateUserRequest.Username bob_request = ''bob''
      \<and> CreateUserRequest.Password bob_request = ''hunter2''
      \<and> CreateUserRequest.FirstName bob_request = ''Bob''
      \<and> CreateUserRequest.LastName bob_request = ''Builder''"
    by (simp add: bob_request_def)
  have hashed: "GenerateFromPassword demo_bcrypt ''hunter2'' DefaultCost = Inr ''$2a$10$2retnuh''"
    by (simp add: demo_defs)
  have absent_r: "GetByEmail NewUserRepository racing_db ''bob@example.com''
      = (Inl ErrNotFound, racing_db\<lparr>faults := [Some ''ERROR: duplicate key value violates unique constraint'']\<rparr>)"
    by (simp add: repo_defs db_defs demo_defs)
  have conflict: "Create NewUserRepository
        (racing_db\<lparr>faults := [Some ''ERROR: duplicate key value violates unique constraint'']\<rparr>) ?new
      = (Some ErrConflict, ?new, racing_db\<lparr>faults := []\<rparr>)"
    by (simp add: repo_defs db_defs demo_defs)
  have raced: "CreateUser NewUserRepository demo_bcrypt racing_db bob_request
      = (Inl ErrUserAlreadyExists, racing_db\<lparr>faults := []\<rparr>)"
    using absent_r hashed conflict fields
      CreateUser_already_exists_or_persists [where repo = NewUserRepository and db = racing_db
        and req = bob_request and bc = demo_bcrypt and hashedPassword = "''$2a$10$2retnuh''"
        and db' = "racing_db\<lparr>faults := [Some ''ERROR: duplicate key value violates unique constraint'']\<rparr>"
        and db'' = "racing_db\<lparr>faults := []\<rparr>" and rejected = ?new,
        THEN conjunct2, THEN conjunct1]
    by simp
  let ?made = "?new\<lparr>User.ID := 2, User.CreatedAt := 1234567, User.UpdatedAt := 1234567\<rparr>"
  let ?after = "pg_db\<lparr>last_id := 2,
      rows := [alice, ?made\<lparr>User.CreatedAt := 1234000, User.UpdatedAt := 1234000\<rparr>]\<rparr>"
  have absent: "GetByEmail NewUserRepository pg_db ''bob@example.com'' = (Inl ErrNotFound, pg_db)"
    by (simp add: repo_defs db_defs demo_defs)
  have inserted: "Create NewUserRepository pg_db ?new = (None, ?made, ?after)"
    by (simp add: repo_defs db_defs demo_defs)
  have made: "CreateUser NewUserRepository demo_bcrypt pg_db bob_request
      = (Inr (mapUserToResponse ?made), ?after)"
    using absent hashed inserted fields
      CreateUser_already_exists_or_persists [where repo = NewUserRepository and db = pg_db
        and req = bob_request and bc = demo_bcrypt and hashedPassword = "''$2a$10$2retnuh''"
        and db' = pg_db and db'' = ?after and created = ?made,
        THEN conjunct2, THEN conjunct2, THEN conjunct1]
    by simp
  have rows: "rows ?after = rows pg_db @ [?made\<lparr>User.CreatedAt := 1234000, User.UpdatedAt := 1234000\<rparr>]"
    by (simp add: pg_db_def)
  have one: "GetByEmail NewUserRepository pg_db ''alice@example.com'' = (Inr alice, pg_db)"
    using found by simp
  have two: "fst (CreateUser NewUserRepository demo_bcrypt pg_db ?dup) = Inl ErrUserAlreadyExists"
    using dup by simp
  have three: "fst (GetByEmail NewUserRepository racing_db ''bob@example.com'') = Inl ErrNotFound"
    using absent_r by simp
  have four: "fst (Create NewUserRepository (snd (GetByEmail NewUserRepository racing_db ''bob@example.com''))
             ?new) = Some ErrConflict"
    using absent_r conflict by simp
  have five: "fst (CreateUser NewUserRepository demo_bcrypt racing_db bob_request) = Inl ErrUserAlreadyExists"
    using raced by simp
  have six: "\<exists>created after. CreateUser NewUserRepository demo_bcrypt pg_db bob_request
          = (Inr (mapUserToResponse created), after)
        \<and> PasswordHash created = ''$2a$10$2retnuh'' \<and> User.IsActive created
        \<and> rows after = rows pg_db @ [created\<lparr>User.CreatedAt := 1234000, User.UpdatedAt := 1234000\<rparr>]"
    using made rows
    by (intro exI [of _ ?made] exI [of _ ?after]) simp
  from one two three hashed four five six show ?thesis
    by (intro conjI)
qed

section \<open>Authentication\<close>

text \<open>
  C3. \<open>AuthenticateUser\<close> answers \<open>ErrInvalidCredentials\<close> when the store finds no user
  with the email and also when it finds one whose stored hash the password does not verify
  against; the two results are the same value, so the caller cannot tell the cases apart.
  When the password verifies the result is the public view of the user found. Over the
  table: an email that no live row carries, and a wrong password for the email of a live
  row, give the same result and leave the table as it was.
\<close>

theorem AuthenticateUser_invalid_credentials:
  fixes repo :: "'db UserRepository"
  shows
  "(GetByEmail repo db email = (Inl ErrNotFound, db') \<longrightarrow>
      AuthenticateUser repo bc db email password = (Inl ErrInvalidCredentials, db'))
   \<and> (GetByEmail repo db email = (Inr user, db')
        \<and> CompareHashAndPassword bc (PasswordHash user) password \<noteq> None \<longrightarrow>
      AuthenticateUser repo bc db email password = (Inl ErrInvalidCredentials, db'))
   \<and> (GetByEmail repo db email = (Inr user, db')
        \<and> CompareHashAndPassword bc (PasswordHash user) password = None \<longrightarrow>
      AuthenticateUser repo bc db email password = (Inr (mapUserToResponse user), db'))
   \<and> (faults table = [] \<and> (\<forall>r \<in> set (rows table). live r \<longrightarrow> User.Email r \<noteq> email) \<longrightarrow>
      AuthenticateUser NewUserRepository bc table email password
        = (Inl ErrInvalidCredentials, table))
   \<and> (faults table = [] \<and> u \<in> set (rows table) \<and> live u
        \<and> distinct (map User.Email (rows table))
        \<and> CompareHashAndPassword bc (PasswordHash u) password \<noteq> None \<longrightarrow>
      AuthenticateUser NewUserRepository bc table (User.Email u) password
        = (Inl ErrInvalidCredentials, table))
   \<and> (faults table = [] \<and> u \<in> set (rows table) \<and> live u
        \<and> distinct (map User.Email (rows table))
        \<and> CompareHashAndPassword bc (PasswordHash u) password = None \<longrightarrow>
      AuthenticateUser NewUserRepository bc table (User.Email u) password
        = (Inr (mapUserToResponse u), table))"
proof -
  have absent: "AuthenticateUser NewUserRepository bc table email password
        = (Inl ErrInvalidCredentials, table)"
    if "faults table = []" "\<forall>r \<in> set (rows table). live r \<longrightarrow> User.Email r \<noteq> email"
    using GetByEmail_absent [OF that]
    by (simp add: AuthenticateUser_def NewUserRepository_def)
  have found: "GetByEmail NewUserRepository table (User.Email u) = (Inr u, table)"
    if "faults table = []" "u \<in> set (rows table)" "live u"
      "distinct (map User.Email (rows table))"
    using GetByEmail_row [OF that]
    by (simp add: NewUserRepository_def)
  have wrong: "AuthenticateUser NewUserRepository bc table (User.Email u) password
        = (Inl ErrInvalidCredentials, table)"
    if "faults table = []" "u \<in> set (rows table)" "live u"
      "distinct (map User.Email (rows table))"
      "CompareHashAndPassword bc (PasswordHash u) password \<noteq> None"
    using found [OF that(1-4)] that(5)
    by (auto simp: AuthenticateUser_def)
  have right: "AuthenticateUser NewUserRepository bc table (User.Email u) password
        = (Inr (mapUserToResponse u), table)"
    if "faults table = []" "u \<in> set (rows table)" "live u"
      "distinct (map User.Email (rows table))"
      "CompareHashAndPassword bc (PasswordHash u) password = None"
    using found [OF that(1-4)] that(5)
    by (simp add: AuthenticateUser_def)
  have general: "(GetByEmail repo db email = (Inl ErrNotFound, db') \<longrightarrow>
      AuthenticateUser repo bc db email password = (Inl ErrInvalidCredentials, db'))
   \<and> (GetByEmail repo db email = (Inr user, db')
        \<and> CompareHashAndPassword bc (PasswordHash user) password \<noteq> None \<longrightarrow>
      AuthenticateUser repo bc db email password = (Inl ErrInvalidCredentials, db'))
   \<and> (GetByEmail repo db email = (Inr user, db')
        \<and> CompareHashAndPassword bc (PasswordHash user) password = None \<longrightarrow>
      AuthenticateUser repo bc db email password = (Inr (mapUserToResponse user), db'))"
    by (auto simp: AuthenticateUser_def)
  from general absent wrong right show ?thesis
    by blast
qed

theorem AuthenticateUser_invalid_credentials_witness:
  "faults pg_db = [] \<and> alice \<in> set (rows pg_db) \<and> live alice
   \<and> distinct (map User.Email (rows pg_db)) \<and> User.Email alice = ''alice@example.com''
   \<and> AuthenticateUser NewUserRepository demo_bcrypt pg_db ''nobody@example.com'' ''secret''
       = (Inl ErrInvalidCredentials, pg_db)
   \<and> CompareHashAndPassword demo_bcrypt (PasswordHash alice) ''guess'' \<noteq> None
   \<and> AuthenticateUser NewUserRepository demo_bcrypt pg_db ''alice@example.com'' ''guess''
       = (Inl ErrInvalidCredentials, pg_db)
   \<and> CompareHashAndPassword demo_bcrypt (PasswordHash alice) ''secret'' = None
   \<and> AuthenticateUser NewUserRepository demo_bcrypt pg_db ''alice@example.com'' ''secret''
       = (Inr (mapUserToResponse alice), pg_db)"
proof -
  have nofault: "faults pg_db = []"
    by (simp add: pg_db_def)
  have row: "alice \<in> set (rows pg_db)"
    by (simp add: pg_db_def)
  have alive: "live alice"
    by (simp add: live_def alice_def)
  have emails: "distinct (map User.Email (rows pg_db))"
    by (simp add: pg_db_def)
  have email: "User.Email alice = ''alice@example.com''"
    by (simp add: alice_def)
  have nobody: "\<forall>r \<in> set (rows pg_db). live r \<longrightarrow> User.Email r \<noteq> ''nobody@example.com''"
    by (simp add: pg_db_def alice_def)
  have wrong: "CompareHashAndPassword demo_bcrypt (PasswordHash alice) ''guess'' \<noteq> None"
    by (simp add: demo_defs)
  have right: "CompareHashAndPassword demo_bcrypt (PasswordHash alice) ''secret'' = None"
    by (simp add: demo_defs)
  have one: "AuthenticateUser NewUserRepository demo_bcrypt pg_db ''nobody@example.com'' ''secret''
       = (Inl ErrInvalidCredentials, pg_db)"
    using nofault nobody
      AuthenticateUser_invalid_credentials [where table = pg_db and bc = demo_bcrypt
        and email = "''nobody@example.com''" and password = "''secret''",
        THEN conjunct2, THEN conjunct2, THEN conjunct2, THEN conjunct1]
    by blast
  have two: "AuthenticateUser NewUserRepository demo_bcrypt pg_db (User.Email alice) ''guess''
       = (Inl ErrInvalidCredentials, pg_db)"
    using nofault row alive emails wrong
      AuthenticateUser_invalid_credentials [where table = pg_db and bc = demo_bcrypt
        and u = alice and password = "''guess''",
        THEN conjunct2, THEN conjunct2, THEN conjunct2, THEN conjunct2, THEN conjunct1]
    by blast
  have three: "AuthenticateUser NewUserRepository demo_bcrypt pg_db (User.Email alice) ''secret''
       = (Inr (mapUserToResponse alice), pg_db)"
    using nofault row alive emails right
      AuthenticateUser_invalid_credentials [where table = pg_db and bc = demo_bcrypt
        and u = alice and password = "''secret''",
        THEN conjunct2, THEN conjunct2, THEN conjunct2, THEN conjunct2, THEN conjunct2]
    by blast
  from nofault row alive emails email one wrong two right three show ?thesis
    by simp
qed

section \<open>Pagination\<close>

text \<open>
  C4 (as the code has it). \<open>ListUsers\<close> replaces a page below 1 by 1 and a page size
  below 1 by 10, leaves every other page size as it is, and asks the store for
  \<open>offset = (page - 1) * pageSize\<close> and \<open>limit = pageSize\<close>, where the product is Go's:
  it is taken in the 64-bit \<^verbatim>\<open>int\<close> and wraps around. It is the exact product whenever
  that lies in the range of \<^verbatim>\<open>int\<close>. \<open>ListUsers 0 0\<close> is \<open>ListUsers 1 10\<close>.
\<close>

theorem ListUsers_pagination:
  fixes repo :: "'db UserRepository" and page pageSize :: go_int
  defines "p \<equiv> if sint page < 1 then 1 else page"
    and "s \<equiv> if sint pageSize < 1 then 10 else pageSize"
  shows
  "ListUsers repo db page pageSize =
     (case List repo db ((p - 1) * s) s of
        (Inl err, db') \<Rightarrow> (Inl err, db')
      | (Inr (users, count), db') \<Rightarrow> (Inr (map mapUserToResponse users, count), db'))
   \<and> snd (ListUsers spy_repo calls page pageSize) = calls @ [((p - 1) * s, s)]
   \<and> ((sint p - 1) * sint s < 2 ^ 63 \<longrightarrow> sint ((p - 1) * s) = (sint p - 1) * sint s)
   \<and> (1 \<le> sint pageSize \<longrightarrow> s = pageSize)
   \<and> ListUsers repo db 0 0 = ListUsers repo db 1 10"
proof -
  have run: "ListUsers repo db page pageSize =
     (case List repo db ((p - 1) * s) s of
        (Inl err, db') \<Rightarrow> (Inl err, db')
      | (Inr (users, count), db') \<Rightarrow> (Inr (map mapUserToResponse users, count), db'))"
    by (simp add: ListUsers_def Let_def p_def s_def)
  have spy: "snd (ListUsers spy_repo calls page pageSize) = calls @ [((p - 1) * s, s)]"
    by (simp add: ListUsers_def Let_def spy_repo_def p_def s_def)
  have page: "1 \<le> sint p"
    by (simp add: p_def)
  have size: "1 \<le> sint s"
    by (simp add: s_def)
  have exact: "sint ((p - 1) * s) = (sint p - 1) * sint s"
    if fits: "(sint p - 1) * sint s < 2 ^ 63"
  proof -
    have upper: "sint p < 2 ^ 63"
      using sint_lt [of p] by simp
    have minus: "sint (p - 1) = sint p - 1"
      using page upper by (simp add: sint_word_ariths signed_take_bit_int_eq_self)
    have nonneg: "0 \<le> (sint p - 1) * sint s"
      using page size by simp
    have "sint ((p - 1) * s) = signed_take_bit 63 (sint (p - 1) * sint s)"
      by (simp add: sint_word_ariths)
    also have "\<dots> = (sint p - 1) * sint s"
      using nonneg fits by (simp add: minus signed_take_bit_int_eq_self)
    finally show ?thesis .
  qed
  have unbounded: "s = pageSize" if "1 \<le> sint pageSize"
    using that by (simp add: s_def)
  have defaults: "ListUsers repo db 0 0 = ListUsers repo db 1 10"
    by (simp add: ListUsers_def Let_def)
  from run spy exact unbounded defaults show ?thesis by blast
qed

theorem ListUsers_pagination_witness:
  "(sint (3 :: go_int) - 1) * sint (20 :: go_int) < 2 ^ 63
   \<and> sint (((3 :: go_int) - 1) * 20) = 40
   \<and> snd (ListUsers spy_repo [] 3 20) = [(40, 20)]
   \<and> snd (ListUsers spy_repo [] 0 0) = [(0, 10)]
   \<and> 1 \<le> sint (1000000 :: go_int)
   \<and> snd (ListUsers spy_repo [] 1 1000000) = [(0, 1000000)]"
proof -
  have range: "(sint (3 :: go_int) - 1) * sint (20 :: go_int) < 2 ^ 63"
    by simp
  have large: "1 \<le> sint (1000000 :: go_int)"
    by simp
  have exact: "sint (((3 :: go_int) - 1) * 20) = 40"
    using range
      ListUsers_pagination [where repo = spy_repo and db = "[]" and calls = "[]"
        and page = 3 and pageSize = 20, THEN conjunct2, THEN conjunct2, THEN conjunct1]
    by simp
  have third: "snd (ListUsers spy_repo [] 3 20) = [(40, 20)]"
    using ListUsers_pagination [where repo = spy_repo and db = "[]" and calls = "[]"
        and page = 3 and pageSize = 20, THEN conjunct2, THEN conjunct1]
    by simp
  have zero: "snd (ListUsers spy_repo [] 0 0) = [(0, 10)]"
    using ListUsers_pagination [where repo = spy_repo and db = "[]" and calls = "[]"
        and page = 0 and pageSize = 0, THEN conjunct2, THEN conjunct1]
    by simp
  have million: "snd (ListUsers spy_repo [] 1 1000000) = [(0, 1000000)]"
    using large
      ListUsers_pagination [where repo = spy_repo and db = "[]" and calls = "[]"
        and page = 1 and pageSize = 1000000, THEN conjunct2, THEN conjunct1]
    by simp
  from range exact third zero large million show ?thesis by simp
qed

text \<open>
  As a product of integers the claim fails: page \<open>2^62 + 1\<close> with page size 4 asks the
  store for offset 0, not for \<open>2^64\<close>.
\<close>

theorem ListUsers_offset_wraps_counterexample:
  "snd (ListUsers spy_repo [] (2 ^ 62 + 1) 4) = [(0, 4)]
   \<and> (sint (2 ^ 62 + 1 :: go_int) - 1) * sint (4 :: go_int) = 2 ^ 64
   \<and> sint (fst (hd (snd (ListUsers spy_repo [] (2 ^ 62 + 1) 4))))
        \<noteq> (sint (2 ^ 62 + 1 :: go_int) - 1) * sint (4 :: go_int)"
  by (simp add: ListUsers_def Let_def spy_repo_def)

section \<open>Updating a user\<close>

text \<open>
  C5. For the identifier of a live row \<open>u\<close> of a table that satisfies its primary key and
  its unique indexes on username and email (each column without repetition; the three
  operations that write keep it so, see \<open>Create_keeps_indexes\<close>, \<open>Update_keeps_indexes\<close>
  and \<open>Delete_keeps_indexes\<close>), \<open>UpdateUser\<close> replaces that row and no other. The new row has the
  request's first and last name, whatever they are (also empty); its password hash is the
  old one when the request's password is empty and the hash bcrypt returns for the new
  password otherwise; identifier, username, email and active flag (and the absence of a
  deletion marker) are those of \<open>u\<close>. Of the timestamps, which the claim does not
  list, \<open>CreatedAt\<close> is written back as it was read and \<open>UpdatedAt\<close> becomes the
  current time. When bcrypt refuses the new password the error is returned and the table
  is unchanged.
\<close>

theorem UpdateUser_overwrites_names_and_hash:
  assumes nofault: "faults db = []"
    and u: "u \<in> set (rows db)" "live u" "User.ID u = uid" "uid \<noteq> 0"
    and pk: "distinct (map User.ID (rows db))"
    and names: "distinct (map User.Username (rows db))"
    and emails: "distinct (map User.Email (rows db))"
  shows
  "(UpdateUserRequest.Password req = []
      \<or> GenerateFromPassword bc (UpdateUserRequest.Password req) DefaultCost = Inr h \<longrightarrow>
     (\<exists>db' row resp. UpdateUser NewUserRepository bc db uid req = (Inr resp, db')
        \<and> rows db' = map (\<lambda>r. if r = u then row else r) (rows db)
        \<and> User.FirstName row = UpdateUserRequest.FirstName req
        \<and> User.LastName row = UpdateUserRequest.LastName req
        \<and> PasswordHash row =
             (if UpdateUserRequest.Password req = [] then PasswordHash u else h)
        \<and> User.ID row = User.ID u \<and> User.Username row = User.Username u
        \<and> User.Email row = User.Email u \<and> User.IsActive row = User.IsActive u
        \<and> live row
        \<and> User.CreatedAt row = col_time db (User.CreatedAt u)
        \<and> User.UpdatedAt row = col_time db (now db)
        \<and> UserResponse.ID resp = uid
        \<and> UserResponse.FirstName resp = UpdateUserRequest.FirstName req
        \<and> UserResponse.LastName resp = UpdateUserRequest.LastName req))
   \<and> (UpdateUserRequest.Password req \<noteq> []
        \<and> GenerateFromPassword bc (UpdateUserRequest.Password req) DefaultCost = Inl e \<longrightarrow>
      UpdateUser NewUserRepository bc db uid req = (Inl e, db))"
proof -
  let ?named = "u\<lparr>User.FirstName := UpdateUserRequest.FirstName req,
                   User.LastName := UpdateUserRequest.LastName req\<rparr>"
  have fetch: "GetByID NewUserRepository db uid = (Inr u, db)"
    using GetByID_row [OF nofault u(1,2) pk] u(3) by (simp add: NewUserRepository_def)
  have key: "User.ID u \<noteq> 0"
    using u by simp
  have uniq: "\<forall>r \<in> set (rows db). r \<noteq> u \<longrightarrow>
                 User.Username r \<noteq> User.Username u \<and> User.Email r \<noteq> User.Email u"
    using names emails u(1) by (auto simp: distinct_map inj_on_def)
  have save: "Update NewUserRepository db user =
     (None, user\<lparr>User.UpdatedAt := now db\<rparr>,
      db\<lparr>rows := map (\<lambda>r. if r = u then store_row db (user\<lparr>User.UpdatedAt := now db\<rparr>) else r)
                       (rows db)\<rparr>)"
    if "User.ID user = User.ID u" "User.Username user = User.Username u"
       "User.Email user = User.Email u" for user
    using Update_present [OF nofault u(1,2) key pk uniq that]
    by (simp add: NewUserRepository_def)
  have changed: "\<exists>db' row resp. UpdateUser NewUserRepository bc db uid req = (Inr resp, db')
        \<and> rows db' = map (\<lambda>r. if r = u then row else r) (rows db)
        \<and> User.FirstName row = UpdateUserRequest.FirstName req
        \<and> User.LastName row = UpdateUserRequest.LastName req
        \<and> PasswordHash row =
             (if UpdateUserRequest.Password req = [] then PasswordHash u else h)
        \<and> User.ID row = User.ID u \<and> User.Username row = User.Username u
        \<and> User.Email row = User.Email u \<and> User.IsActive row = User.IsActive u
        \<and> live row
        \<and> User.CreatedAt row = col_time db (User.CreatedAt u)
        \<and> User.UpdatedAt row = col_time db (now db)
        \<and> UserResponse.ID resp = uid
        \<and> UserResponse.FirstName resp = UpdateUserRequest.FirstName req
        \<and> UserResponse.LastName resp = UpdateUserRequest.LastName req"
    if pw: "UpdateUserRequest.Password req = []
      \<or> GenerateFromPassword bc (UpdateUserRequest.Password req) DefaultCost = Inr h"
  proof -
    let ?user = "?named\<lparr>PasswordHash :=
        (if UpdateUserRequest.Password req = [] then PasswordHash u else h)\<rparr>"
    let ?saved = "?user\<lparr>User.UpdatedAt := now db\<rparr>"
    let ?db = "db\<lparr>rows := map (\<lambda>r. if r = u then store_row db ?saved else r) (rows db)\<rparr>"
    have upd: "Update NewUserRepository db ?user = (None, ?saved, ?db)"
      by (rule save) simp_all
    have run: "UpdateUser NewUserRepository bc db uid req = (Inr (mapUserToResponse ?saved), ?db)"
    proof (cases "UpdateUserRequest.Password req = []")
      case True
      with fetch upd show ?thesis
        by (simp add: UpdateUser_def Let_def)
    next
      case False
      with pw have "GenerateFromPassword bc (UpdateUserRequest.Password req) DefaultCost = Inr h"
        by simp
      with False fetch upd show ?thesis
        by (simp add: UpdateUser_def Let_def)
    qed
    have fields: "rows ?db = map (\<lambda>r. if r = u then store_row db ?saved else r) (rows db)
        \<and> User.FirstName (store_row db ?saved) = UpdateUserRequest.FirstName req
        \<and> User.LastName (store_row db ?saved) = UpdateUserRequest.LastName req
        \<and> PasswordHash (store_row db ?saved) =
             (if UpdateUserRequest.Password req = [] then PasswordHash u else h)
        \<and> User.ID (store_row db ?saved) = User.ID u
        \<and> User.Username (store_row db ?saved) = User.Username u
        \<and> User.Email (store_row db ?saved) = User.Email u
        \<and> User.IsActive (store_row db ?saved) = User.IsActive u
        \<and> live (store_row db ?saved)
        \<and> User.CreatedAt (store_row db ?saved) = col_time db (User.CreatedAt u)
        \<and> User.UpdatedAt (store_row db ?saved) = col_time db (now db)
        \<and> UserResponse.ID (mapUserToResponse ?saved) = uid
        \<and> UserResponse.FirstName (mapUserToResponse ?saved) = UpdateUserRequest.FirstName req
        \<and> UserResponse.LastName (mapUserToResponse ?saved) = UpdateUserRequest.LastName req"
      using u by (simp add: store_row_def live_def mapUserToResponse_def)
    from run fields show ?thesis
      by (intro exI [of _ ?db] exI [of _ "store_row db ?saved"]
          exI [of _ "mapUserToResponse ?saved"]) (rule conjI)
  qed
  have refused: "UpdateUser NewUserRepository bc db uid req = (Inl e, db)"
    if "UpdateUserRequest.Password req \<noteq> []
        \<and> GenerateFromPassword bc (UpdateUserRequest.Password req) DefaultCost = Inl e"
    using that fetch by (simp add: UpdateUser_def Let_def)
  from changed refused show ?thesis by blast
qed

theorem UpdateUser_overwrites_names_and_hash_witness:
  "faults pg_db = [] \<and> alice \<in> set (rows pg_db) \<and> live alice \<and> User.ID alice = 1
   \<and> distinct (map User.ID (rows pg_db))
   \<and> distinct (map User.Username (rows pg_db)) \<and> distinct (map User.Email (rows pg_db))
   \<and> UpdateUserRequest.Password rename_request = []
   \<and> (\<exists>db' row resp. UpdateUser NewUserRepository demo_bcrypt pg_db 1 rename_request = (Inr resp, db')
        \<and> rows db' = map (\<lambda>r. if r = alice then row else r) (rows pg_db)
        \<and> User.FirstName row = [] \<and> User.LastName row = ''Pleasance''
        \<and> PasswordHash row = PasswordHash alice
        \<and> User.ID row = 1 \<and> User.Username row = ''alice''
        \<and> User.Email row = ''alice@example.com'' \<and> User.IsActive row)
   \<and> GenerateFromPassword demo_bcrypt (UpdateUserRequest.Password rekey_request) DefaultCost
        = Inr ''$2a$10$tibbar''
   \<and> (\<exists>db' row resp. UpdateUser NewUserRepository demo_bcrypt pg_db 1 rekey_request = (Inr resp, db')
        \<and> rows db' = map (\<lambda>r. if r = alice then row else r) (rows pg_db)
        \<and> PasswordHash row = ''$2a$10$tibbar''
        \<and> User.ID row = 1 \<and> User.Username row = ''alice''
        \<and> User.Email row = ''alice@example.com'' \<and> User.IsActive row)"
proof -
  have nofault: "faults pg_db = []"
    by (simp add: pg_db_def)
  have row: "alice \<in> set (rows pg_db)"
    by (simp add: pg_db_def)
  have alive: "live alice"
    by (simp add: live_def alice_def)
  have key: "User.ID alice = 1"
    by (simp add: alice_def)
  have pos: "(1 :: nat) \<noteq> 0"
    by simp
  have pk: "distinct (map User.ID (rows pg_db))"
    by (simp add: pg_db_def)
  have names: "distinct (map User.Username (rows pg_db))"
    by (simp add: pg_db_def)
  have emails: "distinct (map User.Email (rows pg_db))"
    by (simp add: pg_db_def)
  have empty: "UpdateUserRequest.Password rename_request = []"
    by (simp add: rename_request_def)
  have hashed: "GenerateFromPassword demo_bcrypt (UpdateUserRequest.Password rekey_request) DefaultCost
      = Inr ''$2a$10$tibbar''"
    by (simp add: demo_defs)
  have fields: "User.Username alice = ''alice'' \<and> User.Email alice = ''alice@example.com''
      \<and> User.IsActive alice
      \<and> UpdateUserRequest.FirstName rename_request = []
      \<and> UpdateUserRequest.LastName rename_request = ''Pleasance''
      \<and> UpdateUserRequest.Password rekey_request \<noteq> []"
    by (simp add: demo_defs)
  have renamed: "\<exists>db' row resp.
        UpdateUser NewUserRepository demo_bcrypt pg_db 1 rename_request = (Inr resp, db')
        \<and> rows db' = map (\<lambda>r. if r = alice then row else r) (rows pg_db)
        \<and> User.FirstName row = [] \<and> User.LastName row = ''Pleasance''
        \<and> PasswordHash row = PasswordHash alice
        \<and> User.ID row = 1 \<and> User.Username row = ''alice''
        \<and> User.Email row = ''alice@example.com'' \<and> User.IsActive row"
    using UpdateUser_overwrites_names_and_hash [OF nofault row alive key pos pk names emails,
        where req = rename_request and bc = demo_bcrypt and h = "[]", THEN conjunct1]
      empty fields key
    by fastforce
  have rekeyed: "\<exists>db' row resp.
        UpdateUser NewUserRepository demo_bcrypt pg_db 1 rekey_request = (Inr resp, db')
        \<and> rows db' = map (\<lambda>r. if r = alice then row else r) (rows pg_db)
        \<and> PasswordHash row = ''$2a$10$tibbar''
        \<and> User.ID row = 1 \<and> User.Username row = ''alice''
        \<and> User.Email row = ''alice@example.com'' \<and> User.IsActive row"
    using UpdateUser_overwrites_names_and_hash [OF nofault row alive key pos pk names emails,
        where req = rekey_request and bc = demo_bcrypt and h = "''$2a$10$tibbar''",
        THEN conjunct1]
      hashed fields key
    by fastforce
  from nofault row alive key pk names emails empty renamed hashed rekeyed show ?thesis
    by (intro conjI)
qed

section \<open>Users that do not exist\<close>

text \<open>
  C6. For an identifier that no live row of the table carries (no row at all, or only
  soft-deleted ones), \<open>GetUser\<close>, \<open>UpdateUser\<close> and \<open>DeleteUser\<close> each return
  \<open>ErrUserNotFound\<close> and leave the table as it was. The driver is taken to answer
  (\<open>faults db = []\<close>); a driver failure is the separate \<open>ErrDatabase\<close> path.
\<close>

theorem missing_user_is_ErrUserNotFound:
  assumes nofault: "faults db = []"
    and absent: "\<forall>r \<in> set (rows db). live r \<longrightarrow> User.ID r \<noteq> uid"
  shows "GetUser NewUserRepository db uid = (Inl ErrUserNotFound, db)
       \<and> UpdateUser NewUserRepository bc db uid req = (Inl ErrUserNotFound, db)
       \<and> DeleteUser NewUserRepository db uid = (Some ErrUserNotFound, db)"
proof -
  have get: "GetUser NewUserRepository db uid = (Inl ErrUserNotFound, db)"
    using nofault absent by (rule GetUser_absent)
  have update: "UpdateUser NewUserRepository bc db uid req = (Inl ErrUserNotFound, db)"
    using GetByID_absent [OF nofault absent]
    by (simp add: UpdateUser_def NewUserRepository_def)
  have delete: "DeleteUser NewUserRepository db uid = (Some ErrUserNotFound, db)"
    using Delete_absent [OF nofault absent]
    by (simp add: DeleteUser_def NewUserRepository_def)
  from get update delete show ?thesis by simp
qed

theorem missing_user_is_ErrUserNotFound_witness:
  "faults pg_db = []
   \<and> GetUser NewUserRepository pg_db 7 = (Inl ErrUserNotFound, pg_db)
   \<and> UpdateUser NewUserRepository demo_bcrypt pg_db 7 rename_request = (Inl ErrUserNotFound, pg_db)
   \<and> DeleteUser NewUserRepository pg_db 7 = (Some ErrUserNotFound, pg_db)
   \<and> fst (GetUser NewUserRepository (pg_db\<lparr>rows := [alice\<lparr>DeletedAt := Some 6000\<rparr>]\<rparr>) 1)
        = Inl ErrUserNotFound
   \<and> fst (DeleteUser NewUserRepository (pg_db\<lparr>rows := [alice\<lparr>DeletedAt := Some 6000\<rparr>]\<rparr>) 1)
        = Some ErrUserNotFound"
proof -
  have nofault: "faults pg_db = []"
    by (simp add: pg_db_def)
  have absent: "\<forall>r \<in> set (rows pg_db). live r \<longrightarrow> User.ID r \<noteq> 7"
    by (simp add: pg_db_def alice_def)
  have nofault': "faults (pg_db\<lparr>rows := [alice\<lparr>DeletedAt := Some 6000\<rparr>]\<rparr>) = []"
    by (simp add: pg_db_def)
  have absent': "\<forall>r \<in> set (rows (pg_db\<lparr>rows := [alice\<lparr>DeletedAt := Some 6000\<rparr>]\<rparr>)).
      live r \<longrightarrow> User.ID r \<noteq> 1"
    by (simp add: live_def)
  from nofault
    missing_user_is_ErrUserNotFound [OF nofault absent, of demo_bcrypt rename_request]
    missing_user_is_ErrUserNotFound [OF nofault' absent', of demo_bcrypt rename_request]
  show ?thesis by simp
qed

section \<open>Soft delete\<close>

text \<open>
  C7. \<open>DeleteUser\<close> of the identifier of a live row succeeds and soft-deletes: the table
  keeps all its rows, the row of that user is still there with the deletion marker set
  and nothing else changed, and the user is gone from the reads: \<open>GetUser\<close> of the
  identifier returns \<open>ErrUserNotFound\<close>, and no page of \<open>ListUsers\<close> lists it.
\<close>

theorem DeleteUser_soft_deletes:
  assumes nofault: "faults db = []"
    and u: "u \<in> set (rows db)" "live u" "User.ID u = uid"
  shows "\<exists>db'. DeleteUser NewUserRepository db uid = (None, db')
      \<and> rows db' = map (\<lambda>r. if User.ID r = uid \<and> live r
                               then r\<lparr>DeletedAt := Some (col_time db (now db))\<rparr> else r) (rows db)
      \<and> length (rows db') = length (rows db)
      \<and> map User.ID (rows db') = map User.ID (rows db)
      \<and> u\<lparr>DeletedAt := Some (col_time db (now db))\<rparr> \<in> set (rows db')
      \<and> GetUser NewUserRepository db' uid = (Inl ErrUserNotFound, db')
      \<and> (\<forall>page pageSize. \<exists>resps count.
            ListUsers NewUserRepository db' page pageSize = (Inr (resps, count), db')
            \<and> uid \<notin> UserResponse.ID ` set resps)"
proof -
  let ?mark = "\<lambda>r. if User.ID r = uid \<and> live r
                   then r\<lparr>DeletedAt := Some (col_time db (now db))\<rparr> else r"
  let ?db = "db\<lparr>rows := map ?mark (rows db)\<rparr>"
  have delete: "DeleteUser NewUserRepository db uid = (None, ?db)"
    using Delete_present [OF nofault u]
    by (simp add: DeleteUser_def NewUserRepository_def)
  have rows: "rows ?db = map ?mark (rows db)"
    by simp
  have ids: "map User.ID (rows ?db) = map User.ID (rows db)"
    by simp
  have kept: "u\<lparr>DeletedAt := Some (col_time db (now db))\<rparr> \<in> set (rows ?db)"
  proof -
    from u have "?mark u = u\<lparr>DeletedAt := Some (col_time db (now db))\<rparr>" by simp
    moreover from u have "?mark u \<in> ?mark ` set (rows db)" by (intro imageI)
    ultimately show ?thesis by simp
  qed
  have nofault': "faults ?db = []"
    using nofault by simp
  have gone: "\<forall>r \<in> set (rows ?db). live r \<longrightarrow> User.ID r \<noteq> uid"
  proof
    fix r
    assume "r \<in> set (rows ?db)"
    then have "r \<in> ?mark ` set (rows db)"
      by (simp only: rows set_map)
    then obtain r0 where r0: "r = ?mark r0"
      by (rule imageE)
    show "live r \<longrightarrow> User.ID r \<noteq> uid"
    proof (cases "User.ID r0 = uid \<and> live r0")
      case True
      with r0 show ?thesis by (simp add: live_def)
    next
      case False
      with r0 show ?thesis by auto
    qed
  qed
  have get: "GetUser NewUserRepository ?db uid = (Inl ErrUserNotFound, ?db)"
    using nofault' gone by (rule GetUser_absent)
  have list: "\<exists>resps count.
            ListUsers NewUserRepository ?db page pageSize = (Inr (resps, count), ?db)
            \<and> uid \<notin> UserResponse.ID ` set resps" for page pageSize
  proof -
    let ?offset = "((if sint page < 1 then 1 else page) - 1) * (if sint pageSize < 1 then 10 else pageSize)"
    let ?limit = "if sint pageSize < 1 then 10 else pageSize"
    obtain users count where run: "GormUserRepository_List ?db ?offset ?limit = (Inr (users, count), ?db)"
      using List_nofault [OF nofault', of ?offset ?limit] by blast
    from List_live [OF nofault' run] gone have "\<forall>r \<in> set users. User.ID r \<noteq> uid"
      by blast
    then have "uid \<notin> UserResponse.ID ` set (map mapUserToResponse users)"
      by (auto simp: mapUserToResponse_def)
    moreover from run have "ListUsers NewUserRepository ?db page pageSize =
        (Inr (map mapUserToResponse users, count), ?db)"
      by (simp add: ListUsers_def NewUserRepository_def Let_def)
    ultimately show ?thesis by blast
  qed
  from delete rows ids kept get list show ?thesis
    by (intro exI [of _ ?db]) simp
qed

theorem DeleteUser_soft_deletes_witness:
  "faults pg_db = [] \<and> alice \<in> set (rows pg_db) \<and> live alice \<and> User.ID alice = 1
   \<and> (\<exists>db'. DeleteUser NewUserRepository pg_db 1 = (None, db')
        \<and> rows db' = [alice\<lparr>DeletedAt := Some 1234000\<rparr>]
        \<and> GetUser NewUserRepository db' 1 = (Inl ErrUserNotFound, db')
        \<and> ListUsers NewUserRepository db' 1 10 = (Inr ([], 0), db'))"
proof -
  have nofault: "faults pg_db = []"
    by (simp add: pg_db_def)
  have row: "alice \<in> set (rows pg_db)"
    by (simp add: pg_db_def)
  have alive: "live alice"
    by (simp add: live_def alice_def)
  have key: "User.ID alice = 1"
    by (simp add: alice_def)
  from DeleteUser_soft_deletes [OF nofault row alive key]
  obtain db' where del: "DeleteUser NewUserRepository pg_db 1 = (None, db')"
    and get: "GetUser NewUserRepository db' 1 = (Inl ErrUserNotFound, db')"
    by blast
  have run: "DeleteUser NewUserRepository pg_db 1 =
      (None, pg_db\<lparr>rows := [alice\<lparr>DeletedAt := Some 1234000\<rparr>]\<rparr>)"
    by (simp add: DeleteUser_def repo_defs db_defs demo_defs)
  with del have db': "db' = pg_db\<lparr>rows := [alice\<lparr>DeletedAt := Some 1234000\<rparr>]\<rparr>"
    by simp
  have list: "ListUsers NewUserRepository (pg_db\<lparr>rows := [alice\<lparr>DeletedAt := Some 1234000\<rparr>]\<rparr>) 1 10
      = (Inr ([], 0), pg_db\<lparr>rows := [alice\<lparr>DeletedAt := Some 1234000\<rparr>]\<rparr>)"
    by (simp add: ListUsers_def repo_defs db_defs demo_defs)
  from nofault row alive key del get db' list show ?thesis
    by (intro conjI exI [of _ db']) simp_all
qed

section \<open>Create, then fetch\<close>

text \<open>
  C8 (as the code has it). After a successful \<open>CreateUser\<close>, \<open>GetUser\<close> of the returned
  identifier succeeds, and its view has the identifier, username, email, first name, last
  name and active flag of the view \<open>CreateUser\<close> returned. Its timestamps are those of
  \<open>CreateUser\<close>'s view as the timestamp columns give them back: \<open>CreateUser\<close> answers
  from the struct GORM filled in memory, \<open>GetUser\<close> from the row. The two views are
  identical when the columns hold the time of creation exactly.
\<close>

theorem create_then_get_round_trip:
  assumes nofault: "faults db = []"
    and created: "CreateUser NewUserRepository bc db req = (Inr resp, db')"
  shows "GetUser NewUserRepository db' (UserResponse.ID resp) =
           (Inr (resp\<lparr>UserResponse.CreatedAt := col_time db (UserResponse.CreatedAt resp),
                      UserResponse.UpdatedAt := col_time db (UserResponse.UpdatedAt resp)\<rparr>), db')
       \<and> UserResponse.CreatedAt resp = now db \<and> UserResponse.UpdatedAt resp = now db
       \<and> (col_time db (now db) = now db \<longrightarrow>
            GetUser NewUserRepository db' (UserResponse.ID resp) = (Inr resp, db'))"
proof -
  from CreateUser_gorm_success [OF created]
  obtain dba hashedPassword user' where
    get: "GormUserRepository_GetByEmail db (CreateUserRequest.Email req) = (Inl ErrNotFound, dba)"
    and ins: "GormUserRepository_Create dba
            \<lparr>User.ID = 0, User.Username = CreateUserRequest.Username req,
             User.Email = CreateUserRequest.Email req, PasswordHash = hashedPassword,
             User.FirstName = CreateUserRequest.FirstName req,
             User.LastName = CreateUserRequest.LastName req, User.IsActive = True,
             User.CreatedAt = 0, User.UpdatedAt = 0, DeletedAt = None\<rparr>
          = (None, user', db')"
    and resp: "resp = mapUserToResponse user'"
    by blast
  have dba: "dba = db"
    using GetByEmail_state [OF get] no_fault_state [OF nofault] by simp
  note made = Create_new_user [OF ins [unfolded dba]]
  let ?row = "store_row db user'"
  have key: "User.ID ?row = Suc (last_id db)"
    by (subst made(1)) (simp add: store_row_def)
  have alive: "live ?row"
    by (subst made(1)) (simp add: store_row_def live_def)
  have member: "?row \<in> set (rows db')"
    by (subst made(2)) simp
  have nofault': "faults db' = []"
    by (subst made(3)) (simp add: nofault)
  have only: "\<forall>r \<in> set (rows db'). User.ID r = User.ID ?row \<and> live r \<longrightarrow> r = ?row"
  proof (intro ballI impI)
    fix r
    assume r: "r \<in> set (rows db')" and same: "User.ID r = User.ID ?row \<and> live r"
    from r have "r \<in> set (rows db) \<or> r = ?row"
      by (subst (asm) made(2)) auto
    moreover from same key made(5) have "r \<notin> set (rows db)"
      by auto
    ultimately show "r = ?row" by blast
  qed
  have fetch: "GormUserRepository_GetByID db' (User.ID ?row) = (Inr ?row, db')"
    using nofault' member alive only by (rule GetByID_present)
  have ident: "UserResponse.ID resp = User.ID ?row"
    by (subst resp) (simp add: mapUserToResponse_def store_row_def)
  have view: "mapUserToResponse ?row =
      resp\<lparr>UserResponse.CreatedAt := col_time db (UserResponse.CreatedAt resp),
           UserResponse.UpdatedAt := col_time db (UserResponse.UpdatedAt resp)\<rparr>"
    by (subst resp)+ (simp add: mapUserToResponse_def store_row_def)
  have times: "UserResponse.CreatedAt resp = now db \<and> UserResponse.UpdatedAt resp = now db"
    by (subst resp, subst made(1))+ (simp add: mapUserToResponse_def)
  have run: "GetUser NewUserRepository db' (UserResponse.ID resp) =
           (Inr (resp\<lparr>UserResponse.CreatedAt := col_time db (UserResponse.CreatedAt resp),
                      UserResponse.UpdatedAt := col_time db (UserResponse.UpdatedAt resp)\<rparr>), db')"
    using fetch view ident by (simp add: GetUser_def NewUserRepository_def)
  have exact: "GetUser NewUserRepository db' (UserResponse.ID resp) = (Inr resp, db')"
    if "col_time db (now db) = now db"
    using run times that by simp
  from run times exact show ?thesis by blast
qed

theorem create_then_get_round_trip_witness:
  "faults pg_db = []
   \<and> (\<exists>resp db'. CreateUser NewUserRepository demo_bcrypt pg_db bob_request = (Inr resp, db')
        \<and> UserResponse.ID resp = 2
        \<and> GetUser NewUserRepository db' 2 =
            (Inr (resp\<lparr>UserResponse.CreatedAt := 1234000, UserResponse.UpdatedAt := 1234000\<rparr>), db'))
   \<and> (\<exists>resp db'. CreateUser NewUserRepository demo_bcrypt (pg_db\<lparr>col_time := \<lambda>t. t\<rparr>) bob_request
                     = (Inr resp, db')
        \<and> GetUser NewUserRepository db' 2 = (Inr resp, db'))"
proof -
  have nofault: "faults pg_db = []"
    by (simp add: pg_db_def)
  have nofault': "faults (pg_db\<lparr>col_time := \<lambda>t. t\<rparr>) = []"
    by (simp add: pg_db_def)
  obtain resp db' where created: "CreateUser NewUserRepository demo_bcrypt pg_db bob_request = (Inr resp, db')"
    and ident: "UserResponse.ID resp = 2" and at: "UserResponse.CreatedAt resp = 1234567"
      "UserResponse.UpdatedAt resp = 1234567"
    by (simp add: CreateUser_def repo_defs db_defs demo_defs mapUserToResponse_def)
  obtain resp2 db2 where created2:
      "CreateUser NewUserRepository demo_bcrypt (pg_db\<lparr>col_time := \<lambda>t. t\<rparr>) bob_request = (Inr resp2, db2)"
    and ident2: "UserResponse.ID resp2 = 2"
    by (simp add: CreateUser_def repo_defs db_defs demo_defs mapUserToResponse_def)
  have first: "GetUser NewUserRepository db' 2 =
      (Inr (resp\<lparr>UserResponse.CreatedAt := 1234000, UserResponse.UpdatedAt := 1234000\<rparr>), db')"
    using create_then_get_round_trip [OF nofault created, THEN conjunct1] ident at
    by (simp add: pg_db_def)
  have second: "GetUser NewUserRepository db2 2 = (Inr resp2, db2)"
    using create_then_get_round_trip [OF nofault' created2] ident2
    by simp
  from nofault created ident first created2 second show ?thesis by blast
qed

text \<open>
  As stated the claim fails on a table whose timestamp columns are coarser than the clock
  (PostgreSQL's microseconds against Go's nanoseconds): the user is created at clock
  reading 1234567, \<open>CreateUser\<close> returns that reading and \<open>GetUser\<close> returns 1234000.
\<close>

theorem create_then_get_timestamps_counterexample:
  "fst (GetByEmail NewUserRepository pg_db (CreateUserRequest.Email bob_request)) = Inl ErrNotFound
   \<and> fst (CreateUser NewUserRepository demo_bcrypt pg_db bob_request) =
        Inr \<lparr>UserResponse.ID = 2, UserResponse.Username = ''bob'',
             UserResponse.Email = ''bob@example.com'', UserResponse.FirstName = ''Bob'',
             UserResponse.LastName = ''Builder'', UserResponse.IsActive = True,
             UserResponse.CreatedAt = 1234567, UserResponse.UpdatedAt = 1234567\<rparr>
   \<and> fst (GetUser NewUserRepository
             (snd (CreateUser NewUserRepository demo_bcrypt pg_db bob_request)) 2) =
        Inr \<lparr>UserResponse.ID = 2, UserResponse.Username = ''bob'',
             UserResponse.Email = ''bob@example.com'', UserResponse.FirstName = ''Bob'',
             UserResponse.LastName = ''Builder'', UserResponse.IsActive = True,
             UserResponse.CreatedAt = 1234000, UserResponse.UpdatedAt = 1234000\<rparr>
   \<and> fst (GetUser NewUserRepository
             (snd (CreateUser NewUserRepository demo_bcrypt pg_db bob_request)) 2)
        \<noteq> fst (CreateUser NewUserRepository demo_bcrypt pg_db bob_request)"
  by (simp add: CreateUser_def GetUser_def repo_defs db_defs demo_defs mapUserToResponse_def)

section \<open>The public view\<close>

text \<open>
  C9. The public view of an entity contains the entity's identifier, username, email, first
  name, last name, active flag, creation time and update time, each in the field of the
  same name, and nothing else: \<open>UserResponse\<close> has exactly these eight fields and none for
  the password hash. Two entities have the same view exactly when they agree on the eight
  fields, and the view does not depend on the password hash. Every successful result of
  \<open>GetUser\<close>, \<open>AuthenticateUser\<close>, \<open>ListUsers\<close>, \<open>CreateUser\<close> and \<open>UpdateUser\<close> is
  this view (for \<open>ListUsers\<close> the list of these views) of the user or users the store
  handed over.
\<close>

theorem mapUserToResponse_public_view:
  fixes repo :: "'db UserRepository"
  shows
  "mapUserToResponse u =
      \<lparr>UserResponse.ID = User.ID u, UserResponse.Username = User.Username u,
       UserResponse.Email = User.Email u, UserResponse.FirstName = User.FirstName u,
       UserResponse.LastName = User.LastName u, UserResponse.IsActive = User.IsActive u,
       UserResponse.CreatedAt = User.CreatedAt u, UserResponse.UpdatedAt = User.UpdatedAt u\<rparr>
   \<and> UserResponse.ID (mapUserToResponse u) = User.ID u
   \<and> UserResponse.Username (mapUserToResponse u) = User.Username u
   \<and> UserResponse.Email (mapUserToResponse u) = User.Email u
   \<and> UserResponse.FirstName (mapUserToResponse u) = User.FirstName u
   \<and> UserResponse.LastName (mapUserToResponse u) = User.LastName u
   \<and> UserResponse.IsActive (mapUserToResponse u) = User.IsActive u
   \<and> UserResponse.CreatedAt (mapUserToResponse u) = User.CreatedAt u
   \<and> UserResponse.UpdatedAt (mapUserToResponse u) = User.UpdatedAt u
   \<and> ((mapUserToResponse u = mapUserToResponse v) =
      (User.ID u = User.ID v \<and> User.Username u = User.Username v
       \<and> User.Email u = User.Email v \<and> User.FirstName u = User.FirstName v
       \<and> User.LastName u = User.LastName v \<and> User.IsActive u = User.IsActive v
       \<and> User.CreatedAt u = User.CreatedAt v \<and> User.UpdatedAt u = User.UpdatedAt v))
   \<and> mapUserToResponse (u\<lparr>PasswordHash := h\<rparr>) = mapUserToResponse u
   \<and> (\<forall>resp db'. GetUser repo db uid = (Inr resp, db') \<longrightarrow>
          (\<exists>user. GetByID repo db uid = (Inr user, db')
             \<and> resp =
                \<lparr>UserResponse.ID = User.ID user, UserResponse.Username = User.Username user,
                 UserResponse.Email = User.Email user,
                 UserResponse.FirstName = User.FirstName user,
                 UserResponse.LastName = User.LastName user,
                 UserResponse.IsActive = User.IsActive user,
                 UserResponse.CreatedAt = User.CreatedAt user,
                 UserResponse.UpdatedAt = User.UpdatedAt user\<rparr>))
   \<and> (\<forall>resp db'. AuthenticateUser repo bc db email password = (Inr resp, db') \<longrightarrow>
          (\<exists>user. GetByEmail repo db email = (Inr user, db')
             \<and> resp =
                \<lparr>UserResponse.ID = User.ID user, UserResponse.Username = User.Username user,
                 UserResponse.Email = User.Email user,
                 UserResponse.FirstName = User.FirstName user,
                 UserResponse.LastName = User.LastName user,
                 UserResponse.IsActive = User.IsActive user,
                 UserResponse.CreatedAt = User.CreatedAt user,
                 UserResponse.UpdatedAt = User.UpdatedAt user\<rparr>))
   \<and> (\<forall>resps count db'. ListUsers repo db page pageSize = (Inr (resps, count), db') \<longrightarrow>
          (\<exists>users offset limit. List repo db offset limit = (Inr (users, count), db')
             \<and> resps =
                map (\<lambda>user.
                  \<lparr>UserResponse.ID = User.ID user, UserResponse.Username = User.Username user,
                   UserResponse.Email = User.Email user,
                   UserResponse.FirstName = User.FirstName user,
                   UserResponse.LastName = User.LastName user,
                   UserResponse.IsActive = User.IsActive user,
                   UserResponse.CreatedAt = User.CreatedAt user,
                   UserResponse.UpdatedAt = User.UpdatedAt user\<rparr>) users))
   \<and> (\<forall>resp db'. CreateUser repo bc db creq = (Inr resp, db') \<longrightarrow>
          (\<exists>new user dba. Create repo dba new = (None, user, db')
             \<and> resp =
                \<lparr>UserResponse.ID = User.ID user, UserResponse.Username = User.Username user,
                 UserResponse.Email = User.Email user,
                 UserResponse.FirstName = User.FirstName user,
                 UserResponse.LastName = User.LastName user,
                 UserResponse.IsActive = User.IsActive user,
                 UserResponse.CreatedAt = User.CreatedAt user,
                 UserResponse.UpdatedAt = User.UpdatedAt user\<rparr>))
   \<and> (\<forall>resp db'. UpdateUser repo bc db uid ureq = (Inr resp, db') \<longrightarrow>
          (\<exists>changed user dba. Update repo dba changed = (None, user, db')
             \<and> resp =
                \<lparr>UserResponse.ID = User.ID user, UserResponse.Username = User.Username user,
                 UserResponse.Email = User.Email user,
                 UserResponse.FirstName = User.FirstName user,
                 UserResponse.LastName = User.LastName user,
                 UserResponse.IsActive = User.IsActive user,
                 UserResponse.CreatedAt = User.CreatedAt user,
                 UserResponse.UpdatedAt = User.UpdatedAt user\<rparr>))"
proof -
  have shape: "mapUserToResponse x =
      \<lparr>UserResponse.ID = User.ID x, UserResponse.Username = User.Username x,
       UserResponse.Email = User.Email x, UserResponse.FirstName = User.FirstName x,
       UserResponse.LastName = User.LastName x, UserResponse.IsActive = User.IsActive x,
       UserResponse.CreatedAt = User.CreatedAt x, UserResponse.UpdatedAt = User.UpdatedAt x\<rparr>"
    for x
    by (simp add: mapUserToResponse_def)
  have fields:
    "UserResponse.ID (mapUserToResponse u) = User.ID u"
    "UserResponse.Username (mapUserToResponse u) = User.Username u"
    "UserResponse.Email (mapUserToResponse u) = User.Email u"
    "UserResponse.FirstName (mapUserToResponse u) = User.FirstName u"
    "UserResponse.LastName (mapUserToResponse u) = User.LastName u"
    "UserResponse.IsActive (mapUserToResponse u) = User.IsActive u"
    "UserResponse.CreatedAt (mapUserToResponse u) = User.CreatedAt u"
    "UserResponse.UpdatedAt (mapUserToResponse u) = User.UpdatedAt u"
    by (simp_all add: mapUserToResponse_def)
  have view: "(mapUserToResponse u = mapUserToResponse v) =
      (User.ID u = User.ID v \<and> User.Username u = User.Username v
       \<and> User.Email u = User.Email v \<and> User.FirstName u = User.FirstName v
       \<and> User.LastName u = User.LastName v \<and> User.IsActive u = User.IsActive v
       \<and> User.CreatedAt u = User.CreatedAt v \<and> User.UpdatedAt u = User.UpdatedAt v)"
    by (auto simp: mapUserToResponse_def)
  have hash: "mapUserToResponse (u\<lparr>PasswordHash := h\<rparr>) = mapUserToResponse u"
    by (simp add: mapUserToResponse_def)
  have get: "\<forall>resp db'. GetUser repo db uid = (Inr resp, db') \<longrightarrow>
          (\<exists>user. GetByID repo db uid = (Inr user, db') \<and> resp = mapUserToResponse user)"
    by (auto simp: GetUser_def split: prod.splits sum.splits if_splits)
  have auth: "\<forall>resp db'. AuthenticateUser repo bc db email password = (Inr resp, db') \<longrightarrow>
          (\<exists>user. GetByEmail repo db email = (Inr user, db') \<and> resp = mapUserToResponse user)"
    by (auto simp: AuthenticateUser_def split: prod.splits sum.splits if_splits option.splits)
  have list: "\<forall>resps count db'. ListUsers repo db page pageSize = (Inr (resps, count), db') \<longrightarrow>
          (\<exists>users offset limit. List repo db offset limit = (Inr (users, count), db')
             \<and> resps = map mapUserToResponse users)"
    by (fastforce simp: ListUsers_def Let_def split: prod.splits sum.splits)
  have create: "\<forall>resp db'. CreateUser repo bc db creq = (Inr resp, db') \<longrightarrow>
          (\<exists>new user dba. Create repo dba new = (None, user, db')
             \<and> resp = mapUserToResponse user)"
    by (fastforce simp: CreateUser_def Let_def split: prod.splits sum.splits if_splits option.splits)
  have update: "\<forall>resp db'. UpdateUser repo bc db uid ureq = (Inr resp, db') \<longrightarrow>
          (\<exists>changed user dba. Update repo dba changed = (None, user, db')
             \<and> resp = mapUserToResponse user)"
    by (fastforce simp: UpdateUser_def Let_def split: prod.splits sum.splits if_splits option.splits)
  have mapped: "mapUserToResponse =
      (\<lambda>user. \<lparr>UserResponse.ID = User.ID user, UserResponse.Username = User.Username user,
                 UserResponse.Email = User.Email user,
                 UserResponse.FirstName = User.FirstName user,
                 UserResponse.LastName = User.LastName user,
                 UserResponse.IsActive = User.IsActive user,
                 UserResponse.CreatedAt = User.CreatedAt user,
                 UserResponse.UpdatedAt = User.UpdatedAt user\<rparr>)"
    by (rule ext) (rule shape)
  note ops = get [unfolded mapped] auth [unfolded mapped] list [unfolded mapped]
    create [unfolded mapped] update [unfolded mapped]
  show ?thesis
    by (intro conjI) (rule shape fields view hash ops)+
qed

theorem mapUserToResponse_public_view_witness:
  "mapUserToResponse alice =
      \<lparr>UserResponse.ID = 1, UserResponse.Username = ''alice'',
       UserResponse.Email = ''alice@example.com'', UserResponse.FirstName = ''Alice'',
       UserResponse.LastName = ''Liddell'', UserResponse.IsActive = True,
       UserResponse.CreatedAt = 5000, UserResponse.UpdatedAt = 5000\<rparr>
   \<and> GetUser NewUserRepository pg_db 1 =
      (Inr \<lparr>UserResponse.ID = 1, UserResponse.Username = ''alice'',
            UserResponse.Email = ''alice@example.com'', UserResponse.FirstName = ''Alice'',
            UserResponse.LastName = ''Liddell'', UserResponse.IsActive = True,
            UserResponse.CreatedAt = 5000, UserResponse.UpdatedAt = 5000\<rparr>, pg_db)
   \<and> (\<exists>user. GetByID NewUserRepository pg_db 1 = (Inr user, pg_db)
         \<and> User.ID user = 1 \<and> User.Username user = ''alice''
         \<and> User.Email user = ''alice@example.com'' \<and> PasswordHash user = ''$2a$10$terces'')
   \<and> mapUserToResponse (alice\<lparr>PasswordHash := ''other''\<rparr>) = mapUserToResponse alice"
proof -
  note inst = mapUserToResponse_public_view [where repo = NewUserRepository and db = pg_db
      and uid = 1 and u = alice and h = "''other''"]
  have view: "mapUserToResponse alice =
      \<lparr>UserResponse.ID = 1, UserResponse.Username = ''alice'',
       UserResponse.Email = ''alice@example.com'', UserResponse.FirstName = ''Alice'',
       UserResponse.LastName = ''Liddell'', UserResponse.IsActive = True,
       UserResponse.CreatedAt = 5000, UserResponse.UpdatedAt = 5000\<rparr>"
    using inst [THEN conjunct1] by (simp add: alice_def)
  have run: "GetUser NewUserRepository pg_db 1 = (Inr (mapUserToResponse alice), pg_db)"
    by (simp add: GetUser_def repo_defs db_defs demo_defs)
  have fetched: "GetByID NewUserRepository pg_db 1 = (Inr alice, pg_db)"
    by (simp add: repo_defs db_defs demo_defs)
  have source: "\<exists>user. GetByID NewUserRepository pg_db 1 = (Inr user, pg_db)
         \<and> User.ID user = 1 \<and> User.Username user = ''alice''
         \<and> User.Email user = ''alice@example.com'' \<and> PasswordHash user = ''$2a$10$terces''"
    using fetched by (intro exI [of _ alice]) (simp add: alice_def)
  have hash: "mapUserToResponse (alice\<lparr>PasswordHash := ''other''\<rparr>) = mapUserToResponse alice"
    using inst by blast
  from view run source hash show ?thesis
    by simp
qed

section \<open>Errors of the store during an update\<close>

text \<open>
  C10. When the fetch by identifier has succeeded and the store's \<open>Update\<close> then fails,
  \<open>UpdateUser\<close> returns the store's error as it is: \<open>ErrNotFound\<close>, \<open>ErrConflict\<close> and
  \<open>ErrDatabase\<close> reach the caller unchanged and are not turned into \<open>ErrUserNotFound\<close>
  or \<open>ErrUserAlreadyExists\<close>. This is unlike the fetch itself, and unlike \<open>GetUser\<close>
  and \<open>DeleteUser\<close>, where the store's \<open>ErrNotFound\<close> becomes \<open>ErrUserNotFound\<close>.
\<close>

theorem UpdateUser_returns_store_error_unchanged:
  fixes repo :: "'db UserRepository"
  shows
  "(GetByID repo db uid = (Inr user, db')
      \<and> (UpdateUserRequest.Password req \<noteq> [] \<longrightarrow>
           GenerateFromPassword bc (UpdateUserRequest.Password req) DefaultCost = Inr h)
      \<and> Update repo db'
            (user\<lparr>User.FirstName := UpdateUserRequest.FirstName req,
                  User.LastName := UpdateUserRequest.LastName req,
                  PasswordHash := (if UpdateUserRequest.Password req = []
                                   then PasswordHash user else h)\<rparr>)
          = (Some err, rejected, db'') \<longrightarrow>
      UpdateUser repo bc db uid req = (Inl err, db'')
      \<and> (err = ErrNotFound \<longrightarrow> fst (UpdateUser repo bc db uid req) \<noteq> Inl ErrUserNotFound)
      \<and> (err = ErrConflict \<longrightarrow> fst (UpdateUser repo bc db uid req) \<noteq> Inl ErrUserAlreadyExists))
   \<and> (GetByID repo db uid = (Inl ErrNotFound, db') \<longrightarrow>
        UpdateUser repo bc db uid req = (Inl ErrUserNotFound, db')
        \<and> GetUser repo db uid = (Inl ErrUserNotFound, db'))
   \<and> (Delete repo db uid = (Some ErrNotFound, db') \<longrightarrow>
        DeleteUser repo db uid = (Some ErrUserNotFound, db'))"
proof -
  have passed: "UpdateUser repo bc db uid req = (Inl err, db'')"
    if fetch: "GetByID repo db uid = (Inr user, db')"
      and hash: "UpdateUserRequest.Password req \<noteq> [] \<longrightarrow>
           GenerateFromPassword bc (UpdateUserRequest.Password req) DefaultCost = Inr h"
      and upd: "Update repo db'
            (user\<lparr>User.FirstName := UpdateUserRequest.FirstName req,
                  User.LastName := UpdateUserRequest.LastName req,
                  PasswordHash := (if UpdateUserRequest.Password req = []
                                   then PasswordHash user else h)\<rparr>)
          = (Some err, rejected, db'')"
  proof (cases "UpdateUserRequest.Password req = []")
    case True
    with fetch upd show ?thesis
      by (simp add: UpdateUser_def Let_def)
  next
    case False
    with hash have "GenerateFromPassword bc (UpdateUserRequest.Password req) DefaultCost = Inr h"
      by simp
    with False fetch upd show ?thesis
      by (simp add: UpdateUser_def Let_def)
  qed
  have fetch_translated: "UpdateUser repo bc db uid req = (Inl ErrUserNotFound, db')
        \<and> GetUser repo db uid = (Inl ErrUserNotFound, db')"
    if "GetByID repo db uid = (Inl ErrNotFound, db')"
    using that by (simp add: UpdateUser_def GetUser_def)
  have delete_translated: "DeleteUser repo db uid = (Some ErrUserNotFound, db')"
    if "Delete repo db uid = (Some ErrNotFound, db')"
    using that by (simp add: DeleteUser_def)
  from passed fetch_translated delete_translated show ?thesis
    by auto
qed

theorem UpdateUser_returns_store_error_unchanged_witness:
  "GetByID vanishing_repo () 1 = (Inr alice, ())
   \<and> fst (Update vanishing_repo ()
        (alice\<lparr>User.FirstName := [], User.LastName := ''Pleasance''\<rparr>)) = Some ErrNotFound
   \<and> UpdateUser vanishing_repo demo_bcrypt () 1 rename_request = (Inl ErrNotFound, ())
   \<and> fst (GetByID NewUserRepository failing_db 1) = Inr alice
   \<and> fst (UpdateUser NewUserRepository demo_bcrypt failing_db 1 rename_request) = Inl ErrDatabase
   \<and> fst (GetByID NewUserRepository racing_db 1) = Inr alice
   \<and> fst (UpdateUser NewUserRepository demo_bcrypt racing_db 1 rename_request) = Inl ErrConflict
   \<and> GetByID NewUserRepository pg_db 7 = (Inl ErrNotFound, pg_db)
   \<and> UpdateUser NewUserRepository demo_bcrypt pg_db 7 rename_request = (Inl ErrUserNotFound, pg_db)"
proof -
  let ?changed = "alice\<lparr>User.FirstName := [], User.LastName := ''Pleasance''\<rparr>"
  have req: "UpdateUserRequest.Password rename_request = []
      \<and> UpdateUserRequest.FirstName rename_request = []
      \<and> UpdateUserRequest.LastName rename_request = ''Pleasance''"
    by (simp add: rename_request_def)
  have v_get: "GetByID vanishing_repo () 1 = (Inr alice, ())"
    by (simp add: vanishing_repo_def)
  have v_upd: "Update vanishing_repo () ?changed = (Some ErrNotFound, ?changed, ())"
    by (simp add: vanishing_repo_def)
  have v_run: "UpdateUser vanishing_repo demo_bcrypt () 1 rename_request = (Inl ErrNotFound, ())"
    using v_get v_upd req
      UpdateUser_returns_store_error_unchanged [where repo = vanishing_repo and db = "()"
        and uid = 1 and user = alice and db' = "()" and req = rename_request
        and bc = demo_bcrypt and h = "[]" and err = ErrNotFound and rejected = ?changed
        and db'' = "()", THEN conjunct1]
    by simp
  have f_get: "GetByID NewUserRepository failing_db 1
      = (Inr alice, failing_db\<lparr>faults := [Some ''unexpected EOF'']\<rparr>)"
    by (simp add: repo_defs db_defs demo_defs)
  have f_upd: "Update NewUserRepository (failing_db\<lparr>faults := [Some ''unexpected EOF'']\<rparr>) ?changed
      = (Some ErrDatabase, ?changed, failing_db\<lparr>faults := []\<rparr>)"
    by (simp add: repo_defs db_defs demo_defs)
  have f_run: "UpdateUser NewUserRepository demo_bcrypt failing_db 1 rename_request
      = (Inl ErrDatabase, failing_db\<lparr>faults := []\<rparr>)"
    using f_get f_upd req
      UpdateUser_returns_store_error_unchanged [where repo = NewUserRepository and db = failing_db
        and uid = 1 and user = alice and db' = "failing_db\<lparr>faults := [Some ''unexpected EOF'']\<rparr>"
        and req = rename_request and bc = demo_bcrypt and h = "[]" and err = ErrDatabase
        and rejected = ?changed and db'' = "failing_db\<lparr>faults := []\<rparr>", THEN conjunct1]
    by simp
  have r_get: "GetByID NewUserRepository racing_db 1
      = (Inr alice, racing_db\<lparr>faults := [Some ''ERROR: duplicate key value violates unique constraint'']\<rparr>)"
    by (simp add: repo_defs db_defs demo_defs)
  have r_upd: "Update NewUserRepository
        (racing_db\<lparr>faults := [Some ''ERROR: duplicate key value violates unique constraint'']\<rparr>) ?changed
      = (Some ErrConflict, ?changed, racing_db\<lparr>faults := []\<rparr>)"
    by (simp add: repo_defs db_defs demo_defs)
  have r_run: "UpdateUser NewUserRepository demo_bcrypt racing_db 1 rename_request
      = (Inl ErrConflict, racing_db\<lparr>faults := []\<rparr>)"
    using r_get r_upd req
      UpdateUser_returns_store_error_unchanged [where repo = NewUserRepository and db = racing_db
        and uid = 1 and user = alice
        and db' = "racing_db\<lparr>faults := [Some ''ERROR: duplicate key value violates unique constraint'']\<rparr>"
        and req = rename_request and bc = demo_bcrypt and h = "[]" and err = ErrConflict
        and rejected = ?changed and db'' = "racing_db\<lparr>faults := []\<rparr>", THEN conjunct1]
    by simp
  have n_get: "GetByID NewUserRepository pg_db 7 = (Inl ErrNotFound, pg_db)"
    by (simp add: repo_defs db_defs demo_defs)
  have n_run: "UpdateUser NewUserRepository demo_bcrypt pg_db 7 rename_request
      = (Inl ErrUserNotFound, pg_db)"
    using n_get
      UpdateUser_returns_store_error_unchanged [where repo = NewUserRepository and db = pg_db
        and uid = 7 and db' = pg_db and req = rename_request and bc = demo_bcrypt,
        THEN conjunct2, THEN conjunct1]
    by simp
  from v_get v_upd v_run f_get f_run r_get r_run n_get n_run show ?thesis
    by simp
qed

end
